theory Spec2Isabelle
  imports Main "HOL-Library.Char_ord" "HOL-Library.Sublist"
begin

section \<open>The Go library functions the middlewares call\<close>

text \<open>
  Go strings and byte slices are byte sequences: both are \<open>string\<close> (a list of 8-bit
  characters) here.
\<close>

type_synonym bytes = string

text \<open>\<^verbatim>\<open>strings.HasPrefix\<close>: \<^verbatim>\<open>len(s) >= len(prefix) && s[:len(prefix)] == prefix\<close>.\<close>

definition HasPrefix :: "string \<Rightarrow> string \<Rightarrow> bool" where
  "HasPrefix s p = (length p \<le> length s \<and> take (length p) s = p)"

text \<open>\<^verbatim>\<open>strings.Contains\<close>: \<open>substr\<close> occurs at some offset of \<open>s\<close>.\<close>

fun Contains :: "string \<Rightarrow> string \<Rightarrow> bool" where
  "Contains [] substr = (substr = [])"
| "Contains (c # s) substr = (HasPrefix (c # s) substr \<or> Contains s substr)"

subsection \<open>UTF-8 and case folding\<close>

text \<open>
  A rune is a Unicode code point (an \<^verbatim>\<open>int32\<close>; nothing here leaves its range, so it is an
  integer). \<^verbatim>\<open>utf8.DecodeRuneInString\<close> returns the first rune of a
  string and its width in bytes, and \<^verbatim>\<open>(RuneError, 1)\<close> for a byte that starts no valid
  encoding. \<open>leadByte\<close> is the package's table \<^verbatim>\<open>first\<close> with \<^verbatim>\<open>acceptRanges\<close>: for a byte
  that starts a sequence of more than one byte, the size of the sequence and the range
  accepted for its second byte. The function reads \<^verbatim>\<open>s[1]\<close>, \<^verbatim>\<open>s[2]\<close>, \<^verbatim>\<open>s[3]\<close> in
  turn, after the test \<^verbatim>\<open>n < sz\<close> that makes sure they exist (so the cases of an empty
  rest below are never reached).
\<close>

type_synonym rune = int

definition RuneError :: rune where
  "RuneError = 0xFFFD"

definition leadByte :: "int \<Rightarrow> (nat \<times> int \<times> int) option" where
  "leadByte b =
     (if 0xC2 \<le> b \<and> b \<le> 0xDF then Some (2, 0x80, 0xBF)
      else if b = 0xE0 then Some (3, 0xA0, 0xBF)
      else if 0xE1 \<le> b \<and> b \<le> 0xEC then Some (3, 0x80, 0xBF)
      else if b = 0xED then Some (3, 0x80, 0x9F)
      else if 0xEE \<le> b \<and> b \<le> 0xEF then Some (3, 0x80, 0xBF)
      else if b = 0xF0 then Some (4, 0x90, 0xBF)
      else if 0xF1 \<le> b \<and> b \<le> 0xF3 then Some (4, 0x80, 0xBF)
      else if b = 0xF4 then Some (4, 0x80, 0x8F)
      else None)"

fun DecodeRuneInString :: "string \<Rightarrow> rune \<times> nat" where
  "DecodeRuneInString [] = (RuneError, 0)"
| "DecodeRuneInString (c0 # t) =
     (let s0 = of_char c0 in
      if s0 < 0x80 then (s0, 1)
      else case leadByte s0 of
        None \<Rightarrow> (RuneError, 1)
      | Some (sz, lo, hi) \<Rightarrow>
          if length (c0 # t) < sz then (RuneError, 1)
          else (case t of
              [] \<Rightarrow> (RuneError, 1)
            | c1 # t1 \<Rightarrow>
                let s1 = of_char c1 in
                if s1 < lo \<or> hi < s1 then (RuneError, 1)
                else if sz \<le> 2 then ((s0 mod 32) * 64 + s1 mod 64, 2)
                else (case t1 of
                    [] \<Rightarrow> (RuneError, 1)
                  | c2 # t2 \<Rightarrow>
                      let s2 = of_char c2 in
                      if s2 < 0x80 \<or> 0xBF < s2 then (RuneError, 1)
                      else if sz \<le> 3
                      then ((s0 mod 16) * 4096 + (s1 mod 64) * 64 + s2 mod 64, 3)
                      else (case t2 of
                          [] \<Rightarrow> (RuneError, 1)
                        | c3 # t3 \<Rightarrow>
                            let s3 = of_char c3 in
                            if s3 < 0x80 \<or> 0xBF < s3 then (RuneError, 1)
                            else ((s0 mod 8) * 262144 + (s1 mod 64) * 4096 + (s2 mod 64) * 64
                                  + s3 mod 64, 4)))))"

text \<open>The runes of a string, as \<^verbatim>\<open>for _, c := range s\<close> visits them.\<close>

fun runes :: "string \<Rightarrow> rune list" where
  "runes [] = []"
| "runes (c # t) = (case DecodeRuneInString (c # t) of (r, width) \<Rightarrow> r # runes (drop (width - 1) t))"

text \<open>
  \<^verbatim>\<open>utf8.EncodeRune\<close>, which \<^verbatim>\<open>strings.Builder.WriteRune\<close> uses: a surrogate, a negative
  value or a value above \<^verbatim>\<open>MaxRune\<close> is written as \<^verbatim>\<open>RuneError\<close>.
\<close>

definition EncodeRune :: "rune \<Rightarrow> string" where
  "EncodeRune r =
     (if 0 \<le> r \<and> r \<le> 0x7F then [char_of r]
      else if 0 \<le> r \<and> r \<le> 0x7FF then [char_of (0xC0 + r div 64), char_of (0x80 + r mod 64)]
      else if r < 0 \<or> r > 0x10FFFF \<or> (0xD800 \<le> r \<and> r \<le> 0xDFFF)
      then [CHR 0xEF, CHR 0xBF, CHR 0xBD]
      else if r \<le> 0xFFFF
      then [char_of (0xE0 + r div 4096), char_of (0x80 + (r div 64) mod 64), char_of (0x80 + r mod 64)]
      else [char_of (0xF0 + r div 262144), char_of (0x80 + (r div 4096) mod 64),
            char_of (0x80 + (r div 64) mod 64), char_of (0x80 + r mod 64)])"

text \<open>
  \<^verbatim>\<open>strings.Map\<close>: every rune of the string is replaced by its image, re-encoded, and
  dropped when the image is negative (a byte that is not valid UTF-8 counts as
  \<^verbatim>\<open>RuneError\<close>).
\<close>

definition strings_Map :: "(rune \<Rightarrow> rune) \<Rightarrow> string \<Rightarrow> string" where
  "strings_Map mapping s =
     concat (map (\<lambda>c. let r = mapping c in if 0 \<le> r then EncodeRune r else []) (runes s))"

text \<open>
  \<^verbatim>\<open>unicode.ToLower\<close>: computed for ASCII, and looked up in the table \<^verbatim>\<open>unicode.CaseRanges\<close>
  above it. The table belongs to the standard library and depends on its Unicode
  version: the lookup \<^verbatim>\<open>To(LowerCase, r)\<close> is a parameter, \<open>To_LowerCase\<close>, of everything
  that folds case.
\<close>

definition unicode_ToLower :: "(rune \<Rightarrow> rune) \<Rightarrow> rune \<Rightarrow> rune" where
  "unicode_ToLower To_LowerCase r =
     (if r \<le> 0x7F then (if 0x41 \<le> r \<and> r \<le> 0x5A then r + 32 else r)
      else To_LowerCase r)"

text \<open>
  \<^verbatim>\<open>strings.ToLower\<close>: a string of ASCII bytes is returned as it is when it has no
  upper-case letter and folded byte by byte otherwise; any other string goes through
  \<^verbatim>\<open>Map(unicode.ToLower, s)\<close>.
\<close>

definition toLowerByte :: "char \<Rightarrow> char" where
  "toLowerByte c =
     (if CHR ''A'' \<le> c \<and> c \<le> CHR ''Z'' then char_of (of_char c + (32::int)) else c)"

definition ToLower :: "(rune \<Rightarrow> rune) \<Rightarrow> string \<Rightarrow> string" where
  "ToLower To_LowerCase s =
     (if list_all (\<lambda>c. of_char c < (0x80::int)) s
      then (if \<not> list_ex (\<lambda>c. CHR ''A'' \<le> c \<and> c \<le> CHR ''Z'') s then s else map toLowerByte s)
      else strings_Map (unicode_ToLower To_LowerCase) s)"


text \<open>\<^verbatim>\<open>os.IsPathSeparator\<close> of the Unix build.\<close>

definition IsPathSeparator :: "char \<Rightarrow> bool" where
  "IsPathSeparator c = (c = CHR ''/'')"

text \<open>
  \<^verbatim>\<open>filepath.Ext\<close>:
  \<^verbatim>\<open>for i := len(path) - 1; i >= 0 && !os.IsPathSeparator(path[i]); i-- {
      if path[i] == '.' { return path[i:] } }
  return ""\<close>
  The loop walks the path from its last byte: \<open>Ext_loop\<close> takes the bytes still to visit
  (reversed) and the bytes already passed.
\<close>

fun Ext_loop :: "string \<Rightarrow> string \<Rightarrow> string" where
  "Ext_loop [] passed = []"
| "Ext_loop (c # front) passed =
     (if IsPathSeparator c then []
      else if c = CHR ''.'' then c # passed
      else Ext_loop front (c # passed))"

definition Ext :: "string \<Rightarrow> string" where
  "Ext path = Ext_loop (rev path) []"

subsection \<open>Readers and errors\<close>

datatype go_error = GoError string

text \<open>
  An \<^verbatim>\<open>io.ReadCloser\<close>: the bytes it still delivers, and the error that ends the stream
  (\<open>None\<close> for a clean \<^verbatim>\<open>io.EOF\<close>). \<^verbatim>\<open>io.ReadAll\<close> returns both; \<^verbatim>\<open>bytes.NewBuffer\<close> under
  \<^verbatim>\<open>io.NopCloser\<close> is a reader over a slice that ends cleanly.
\<close>

datatype reader = Reader bytes "go_error option"

fun ReadAll :: "reader \<Rightarrow> bytes \<times> go_error option" where
  "ReadAll (Reader bs e) = (bs, e)"

definition NewBuffer :: "bytes \<Rightarrow> reader" where
  "NewBuffer bs = Reader bs None"

section \<open>The extension registry\<close>

text \<open>
  \<^verbatim>\<open>var mediaExtensions = map[string]bool{".jpg": true, ...}\<close>: the keys, all mapped to
  \<^verbatim>\<open>true\<close>; a lookup of any other key is \<^verbatim>\<open>false\<close>. The table \<^verbatim>\<open>supportedExtensions\<close> of
  log_filter.go has the same keys.
\<close>

definition mediaExtensions_keys :: "string list" where
  "mediaExtensions_keys =
     [''.jpg'', ''.jpeg'', ''.png'', ''.gif'', ''.bmp'', ''.webp'', ''.svg'', ''.tiff'',
      ''.ico'', ''.heic'',
      ''.mp4'', ''.avi'', ''.mkv'', ''.mov'', ''.wmv'', ''.flv'', ''.webm'', ''.m4v'',
      ''.mpg'', ''.mpeg'', ''.3gp'', ''.rm'', ''.rmvb'', ''.ts'', ''.m3u8'']"

definition mediaExtensions :: "string \<Rightarrow> bool" where
  "mediaExtensions ext = (ext \<in> set mediaExtensions_keys)"

definition isMediaFilePath :: "(rune \<Rightarrow> rune) \<Rightarrow> string \<Rightarrow> bool" where
  "isMediaFilePath T path = mediaExtensions (ToLower T (Ext path))"

definition isMediaFileName :: "(rune \<Rightarrow> rune) \<Rightarrow> string \<Rightarrow> bool" where
  "isMediaFileName T filename = mediaExtensions (ToLower T (Ext filename))"

text \<open>
  The registry lookup in the words of the specification: the substring after the final
  \<open>.\<close> of the name, taken with that dot (the members of the set carry it) and
  case-folded, is a member of the set.
\<close>

definition trailingExtension :: "string \<Rightarrow> string option" where
  "trailingExtension name =
     (if CHR ''.'' \<in> set name
      then Some (rev (takeWhile (\<lambda>c. c \<noteq> CHR ''.'') (rev name)))
      else None)"

definition IsMedia_spec :: "(rune \<Rightarrow> rune) \<Rightarrow> string \<Rightarrow> bool" where
  "IsMedia_spec T name =
     (case trailingExtension name of
        None \<Rightarrow> False
      | Some e \<Rightarrow> mediaExtensions (ToLower T (CHR ''.'' # e)))"

section \<open>The request classifier\<close>

text \<open>\<^verbatim>\<open>var ignoredPaths = []string{...}\<close> (the same in both revisions of media_logger.go).\<close>

definition ignoredPaths :: "string list" where
  "ignoredPaths = [''/assets/'', ''/images/'', ''/favicon.ico'', ''/robots.txt'', ''/ping'']"

text \<open>
  \<^verbatim>\<open>for _, prefix := range ignoredPaths { if strings.HasPrefix(path, prefix) { ...; return } }\<close>:
  whether the loop leaves through its \<^verbatim>\<open>return\<close>.
\<close>

fun hasIgnoredPrefix :: "string \<Rightarrow> string list \<Rightarrow> bool" where
  "hasIgnoredPrefix path [] = False"
| "hasIgnoredPrefix path (p # rest) =
     (if HasPrefix path p then True else hasIgnoredPrefix path rest)"

datatype category = Ignored | DirectMedia | ListQuery | GetQuery | Other

text \<open>
  The branch \<^verbatim>\<open>MediaLoggerMiddleware\<close> takes, in the order of its tests: the ignored
  prefixes, the media extension, then the two endpoints under \<^verbatim>\<open>/api/\<close>.
\<close>

definition classify :: "(rune \<Rightarrow> rune) \<Rightarrow> string \<Rightarrow> category" where
  "classify T path =
     (if hasIgnoredPrefix path ignoredPaths then Ignored
      else if isMediaFilePath T path then DirectMedia
      else if HasPrefix path ''/api/'' then
        (if path = ''/api/fs/list'' \<or> HasPrefix path ''/api/fs/list?'' then ListQuery
         else if path = ''/api/fs/get'' \<or> HasPrefix path ''/api/fs/get?'' then GetQuery
         else Other)
      else Other)"

section \<open>The response writer and the handlers behind the middleware\<close>

text \<open>
  \<^verbatim>\<open>gin.ResponseWriter\<close> is an interface: an implementation is a state \<open>'s\<close> and its
  methods. Only the methods the middlewares and the wrapper name are listed; gin's other
  methods (Header, Flush, Size, ...) reach the wrapped writer as \<open>WriteHeader\<close> does.
\<close>

record 's gin_ResponseWriter =
  Write :: "'s \<Rightarrow> bytes \<Rightarrow> 's \<times> nat \<times> go_error option"
  WriteString :: "'s \<Rightarrow> string \<Rightarrow> 's \<times> nat \<times> go_error option"
  WriteHeader :: "'s \<Rightarrow> int \<Rightarrow> 's"
  Status :: "'s \<Rightarrow> int"

text \<open>
  \<^verbatim>\<open>type responseBodyWriter struct { gin.ResponseWriter; body *bytes.Buffer }\<close>:
  the embedded writer's state and the buffer's contents.
\<close>

record 'w responseBodyWriter =
  ResponseWriter :: 'w
  body :: bytes

text \<open>
  \<^verbatim>\<open>func (w *responseBodyWriter) Write(b []byte) (int, error) {
      w.body.Write(b)
      return w.ResponseWriter.Write(b) }\<close>
  and the same for \<^verbatim>\<open>WriteString\<close>; \<^verbatim>\<open>Status\<close> asks the embedded writer. \<open>I\<close> is the
  implementation of the embedded writer.
\<close>

definition responseBodyWriter_Write ::
  "'w gin_ResponseWriter \<Rightarrow> 'w responseBodyWriter \<Rightarrow> bytes
     \<Rightarrow> 'w responseBodyWriter \<times> nat \<times> go_error option" where
  "responseBodyWriter_Write I w b =
     (let w1 = w\<lparr>body := body w @ b\<rparr>;
          (u, n, err) = Write I (ResponseWriter w1) b
      in (w1\<lparr>ResponseWriter := u\<rparr>, n, err))"

definition responseBodyWriter_WriteString ::
  "'w gin_ResponseWriter \<Rightarrow> 'w responseBodyWriter \<Rightarrow> string
     \<Rightarrow> 'w responseBodyWriter \<times> nat \<times> go_error option" where
  "responseBodyWriter_WriteString I w s =
     (let w1 = w\<lparr>body := body w @ s\<rparr>;
          (u, n, err) = WriteString I (ResponseWriter w1) s
      in (w1\<lparr>ResponseWriter := u\<rparr>, n, err))"

definition responseBodyWriter_Status :: "'w gin_ResponseWriter \<Rightarrow> 'w responseBodyWriter \<Rightarrow> int" where
  "responseBodyWriter_Status I w = Status I (ResponseWriter w)"

text \<open>\<^verbatim>\<open>WriteHeader\<close> is promoted from the embedded field.\<close>

definition responseBodyWriter_WriteHeader ::
  "'w gin_ResponseWriter \<Rightarrow> 'w responseBodyWriter \<Rightarrow> int \<Rightarrow> 'w responseBodyWriter" where
  "responseBodyWriter_WriteHeader I w code = w\<lparr>ResponseWriter := WriteHeader I (ResponseWriter w) code\<rparr>"

text \<open>The method set with which a \<^verbatim>\<open>*responseBodyWriter\<close> is a \<^verbatim>\<open>gin.ResponseWriter\<close>.\<close>

definition responseBodyWriter_methods ::
  "'w gin_ResponseWriter \<Rightarrow> 'w responseBodyWriter gin_ResponseWriter" where
  "responseBodyWriter_methods I =
     \<lparr>Write = responseBodyWriter_Write I,
      WriteString = responseBodyWriter_WriteString I,
      WriteHeader = responseBodyWriter_WriteHeader I,
      Status = responseBodyWriter_Status I\<rparr>"

text \<open>
  The handlers that \<^verbatim>\<open>c.Next()\<close> runs see \<^verbatim>\<open>c.Writer\<close> only through the interface. A
  handler is therefore a program of calls on the writer, each call continuing with what
  the writer returned, that ends with a result \<open>'r\<close>.
\<close>

datatype 'r handler =
    Return 'r
  | CallWrite bytes "nat \<times> go_error option \<Rightarrow> 'r handler"
  | CallWriteString string "nat \<times> go_error option \<Rightarrow> 'r handler"
  | CallWriteHeader int "'r handler"
  | CallStatus "int \<Rightarrow> 'r handler"

text \<open>Running a handler against a writer: the writer's final state and the handler's result.\<close>

primrec runHandler :: "'s gin_ResponseWriter \<Rightarrow> 'r handler \<Rightarrow> 's \<Rightarrow> 's \<times> 'r" where
  "runHandler M (Return r) = (\<lambda>s. (s, r))"
| "runHandler M (CallWrite b k) =
     (\<lambda>s. case Write M s b of (s', res) \<Rightarrow> runHandler M (k res) s')"
| "runHandler M (CallWriteString str k) =
     (\<lambda>s. case WriteString M s str of (s', res) \<Rightarrow> runHandler M (k res) s')"
| "runHandler M (CallWriteHeader code h) = (\<lambda>s. runHandler M h (WriteHeader M s code))"
| "runHandler M (CallStatus k) = (\<lambda>s. runHandler M (k (Status M s)) s)"

text \<open>The slices the handler passes to \<open>Write\<close> and \<open>WriteString\<close> in that run, in order.\<close>

primrec writtenSlices :: "'s gin_ResponseWriter \<Rightarrow> 'r handler \<Rightarrow> 's \<Rightarrow> bytes list" where
  "writtenSlices M (Return r) = (\<lambda>s. [])"
| "writtenSlices M (CallWrite b k) =
     (\<lambda>s. case Write M s b of (s', res) \<Rightarrow> b # writtenSlices M (k res) s')"
| "writtenSlices M (CallWriteString str k) =
     (\<lambda>s. case WriteString M s str of (s', res) \<Rightarrow> str # writtenSlices M (k res) s')"
| "writtenSlices M (CallWriteHeader code h) = (\<lambda>s. writtenSlices M h (WriteHeader M s code))"
| "writtenSlices M (CallStatus k) = (\<lambda>s. writtenSlices M (k (Status M s)) s)"

text \<open>What the writer returned to each of those calls, in order.\<close>

primrec writeResults :: "'s gin_ResponseWriter \<Rightarrow> 'r handler \<Rightarrow> 's \<Rightarrow> (nat \<times> go_error option) list" where
  "writeResults M (Return r) = (\<lambda>s. [])"
| "writeResults M (CallWrite b k) =
     (\<lambda>s. case Write M s b of (s', res) \<Rightarrow> res # writeResults M (k res) s')"
| "writeResults M (CallWriteString str k) =
     (\<lambda>s. case WriteString M s str of (s', res) \<Rightarrow> res # writeResults M (k res) s')"
| "writeResults M (CallWriteHeader code h) = (\<lambda>s. writeResults M h (WriteHeader M s code))"
| "writeResults M (CallStatus k) = (\<lambda>s. writeResults M (k (Status M s)) s)"

section \<open>Requests, the gin context and the log\<close>

record http_Request =
  URL_Path :: string
  Method :: string
  Body :: "reader option"
  Authorization :: string

text \<open>
  What \<^verbatim>\<open>c.Get("user")\<close> may hold: a \<^verbatim>\<open>*model.User\<close> (\<open>None\<close> a nil pointer, otherwise its
  \<^verbatim>\<open>Username\<close>), a \<^verbatim>\<open>map[string]interface{}\<close>, or a value of another type.
\<close>

datatype any_value = StringValue string | OtherValue

datatype user_value =
    ModelUser "string option"
  | UserMap "string \<Rightarrow> any_value option"
  | OtherUser

text \<open>
  The gin context with the process's two outputs: the lines given to logrus and the
  lines printed on standard output. \<open>ClientIP\<close> is what \<^verbatim>\<open>c.ClientIP()\<close> returns and \<open>now\<close>
  the time stamp \<^verbatim>\<open>time.Now()\<close> already rendered; the clock itself is not modelled.
\<close>

record ('w, 'l) Context =
  Request :: http_Request
  Writer :: 'w
  user :: "user_value option"
  ClientIP :: string
  now :: string
  logrus :: "'l list"
  stdout :: "string list"

text \<open>
  The rest of the handler chain: given the request and the context key it can read, the
  program it runs on \<^verbatim>\<open>c.Writer\<close>, ending with the value it leaves under the key
  \<^verbatim>\<open>"user"\<close>.
\<close>

type_synonym chain = "http_Request \<Rightarrow> user_value option \<Rightarrow> (user_value option) handler"

text \<open>\<^verbatim>\<open>c.Next()\<close> while \<^verbatim>\<open>c.Writer\<close> is the writer gin installed.\<close>

definition Next :: "'w gin_ResponseWriter \<Rightarrow> chain \<Rightarrow> ('w, 'l) Context \<Rightarrow> ('w, 'l) Context" where
  "Next I rest c =
     (case runHandler I (rest (Request c) (user c)) (Writer c) of
        (w, u) \<Rightarrow> c\<lparr>Writer := w, user := u\<rparr>)"

text \<open>
  \<^verbatim>\<open>responseWriter := &responseBodyWriter{ResponseWriter: c.Writer, body: &bytes.Buffer{}}
  c.Writer = responseWriter
  c.Next()\<close>
  The context afterwards (its \<open>Writer\<close> field holds the state of the embedded writer)
  and the wrapper.
\<close>

definition NextCaptured ::
  "'w gin_ResponseWriter \<Rightarrow> chain \<Rightarrow> ('w, 'l) Context \<Rightarrow> ('w, 'l) Context \<times> 'w responseBodyWriter" where
  "NextCaptured I rest c =
     (let responseWriter = \<lparr>ResponseWriter = Writer c, body = []\<rparr>
      in case runHandler (responseBodyWriter_methods I) (rest (Request c) (user c)) responseWriter of
           (rw, u) \<Rightarrow> (c\<lparr>Writer := ResponseWriter rw, user := u\<rparr>, rw))"

text \<open>
  \<^verbatim>\<open>if c.Request.Body != nil {
      requestBody, _ = io.ReadAll(c.Request.Body)
      c.Request.Body = io.NopCloser(bytes.NewBuffer(requestBody)) }\<close>
\<close>

definition saveRequestBody :: "('w, 'l) Context \<Rightarrow> bytes \<times> ('w, 'l) Context" where
  "saveRequestBody c =
     (case Body (Request c) of
        None \<Rightarrow> ([], c)
      | Some rd \<Rightarrow>
          (let requestBody = fst (ReadAll rd)
           in (requestBody, c\<lparr>Request := (Request c)\<lparr>Body := Some (NewBuffer requestBody)\<rparr>\<rparr>)))"

section \<open>The JSON payloads\<close>

text \<open>
  The structs of media_logger.go. Field names are global here, so \<^verbatim>\<open>fsRequest.Path\<close> is
  \<open>ReqPath\<close> and \<^verbatim>\<open>fsGetResponse.Code\<close> is \<open>GetCode\<close>.
\<close>

record fsRequest =
  ReqPath :: string

record fsObject =
  Name :: string
  Path :: string
  Type :: int

record fsListResponse =
  Code :: int
  Content :: "fsObject list"

record fsGetResponse =
  GetCode :: int
  Data :: fsObject

text \<open>The zero values of \<^verbatim>\<open>var req fsRequest\<close>, \<^verbatim>\<open>var resp fsListResponse\<close>, \<^verbatim>\<open>var resp fsGetResponse\<close>.\<close>

definition fsRequest_zero :: fsRequest where
  "fsRequest_zero = \<lparr>ReqPath = []\<rparr>"

definition fsObject_zero :: fsObject where
  "fsObject_zero = \<lparr>Name = [], Path = [], Type = 0\<rparr>"

definition fsListResponse_zero :: fsListResponse where
  "fsListResponse_zero = \<lparr>Code = 0, Content = []\<rparr>"

definition fsGetResponse_zero :: fsGetResponse where
  "fsGetResponse_zero = \<lparr>GetCode = 0, Data = fsObject_zero\<rparr>"

text \<open>
  \<^verbatim>\<open>json.Unmarshal(data, &v)\<close> belongs to the standard library: it is a parameter, one
  function for each type it is called at, from the bytes and the value \<open>v\<close> holds before
  the call to the value \<open>v\<close> holds after it and the error returned.
\<close>

record encoding_json =
  Unmarshal_fsRequest :: "bytes \<Rightarrow> fsRequest \<Rightarrow> fsRequest \<times> go_error option"
  Unmarshal_fsListResponse :: "bytes \<Rightarrow> fsListResponse \<Rightarrow> fsListResponse \<times> go_error option"
  Unmarshal_fsGetResponse :: "bytes \<Rightarrow> fsGetResponse \<Rightarrow> fsGetResponse \<times> go_error option"

text \<open>
  \<^verbatim>\<open>var req fsRequest
  if len(requestBody) > 0 { _ = json.Unmarshal(requestBody, &req) }\<close>
  and the same for the two response types: the error is dropped.
\<close>

definition decodeRequest :: "encoding_json \<Rightarrow> bytes \<Rightarrow> fsRequest" where
  "decodeRequest J requestBody =
     (if length requestBody > 0 then fst (Unmarshal_fsRequest J requestBody fsRequest_zero)
      else fsRequest_zero)"

definition decodeListResponse :: "encoding_json \<Rightarrow> bytes \<Rightarrow> fsListResponse" where
  "decodeListResponse J responseData =
     (if length responseData > 0
      then fst (Unmarshal_fsListResponse J responseData fsListResponse_zero)
      else fsListResponse_zero)"

definition decodeGetResponse :: "encoding_json \<Rightarrow> bytes \<Rightarrow> fsGetResponse" where
  "decodeGetResponse J responseData =
     (if length responseData > 0
      then fst (Unmarshal_fsGetResponse J responseData fsGetResponse_zero)
      else fsGetResponse_zero)"

section \<open>media_logger.go, the revision that logs the user\<close>

text \<open>The labels of the log line, as UTF-8 bytes (the source writes them in Chinese).\<close>

definition label_time :: string where
  "label_time = [CHR 0xE6, CHR 0x97, CHR 0xB6, CHR 0xE9, CHR 0x97, CHR 0xB4, CHR 0xEF, CHR 0xBC, CHR 0x9A]"

definition label_ip :: string where
  "label_ip = [CHR 0x20, CHR 0xE8, CHR 0xAE, CHR 0xBF, CHR 0xE9, CHR 0x97, CHR 0xAE, CHR 0x49, CHR 0x50,
               CHR 0xEF, CHR 0xBC, CHR 0x9A]"

definition label_path :: string where
  "label_path = [CHR 0x20, CHR 0xE8, CHR 0xAE, CHR 0xBF, CHR 0xE9, CHR 0x97, CHR 0xAE, CHR 0xE8, CHR 0xB7,
                 CHR 0xAF, CHR 0xE5, CHR 0xBE, CHR 0x84, CHR 0xEF, CHR 0xBC, CHR 0x9A]"

definition label_user :: string where
  "label_user = [CHR 0x20, CHR 0xE7, CHR 0x94, CHR 0xA8, CHR 0xE6, CHR 0x88, CHR 0xB7, CHR 0xEF, CHR 0xBC,
                 CHR 0x9A]"

definition authenticated_user :: string where
  "authenticated_user = [CHR 0xE5, CHR 0xB7, CHR 0xB2, CHR 0xE8, CHR 0xAE, CHR 0xA4, CHR 0xE8, CHR 0xAF,
                         CHR 0x81, CHR 0xE7, CHR 0x94, CHR 0xA8, CHR 0xE6, CHR 0x88, CHR 0xB7]"

definition unknown_user :: string where
  "unknown_user = [CHR 0xE6, CHR 0x9C, CHR 0xAA, CHR 0xE7, CHR 0x9F, CHR 0xA5, CHR 0xE7, CHR 0x94, CHR 0xA8,
                   CHR 0xE6, CHR 0x88, CHR 0xB7]"

text \<open>
  \<^verbatim>\<open>getUserName\<close>: the user object of the context if it is a non-nil \<^verbatim>\<open>*model.User\<close> or a
  map with a string under \<^verbatim>\<open>"username"\<close>; else the placeholder for a bearer token; else
  the placeholder for an unknown user.
\<close>

definition getUserName :: "('w, 'l) Context \<Rightarrow> string" where
  "getUserName c =
     (let fromHeader =
            (if HasPrefix (Authorization (Request c)) ''Bearer '' then authenticated_user
             else unknown_user)
      in case user c of
           None \<Rightarrow> fromHeader
         | Some (ModelUser (Some username)) \<Rightarrow> username
         | Some (ModelUser None) \<Rightarrow> fromHeader
         | Some (UserMap userMap) \<Rightarrow>
             (case userMap ''username'' of
                Some (StringValue usernameStr) \<Rightarrow> usernameStr
              | _ \<Rightarrow> fromHeader)
         | Some OtherUser \<Rightarrow> fromHeader)"

text \<open>\<^verbatim>\<open>formatMediaLog\<close>: the \<^verbatim>\<open>fmt.Sprintf\<close> of the four fields between the labels.\<close>

definition formatMediaLog :: "string \<Rightarrow> string \<Rightarrow> string \<Rightarrow> string \<Rightarrow> string" where
  "formatMediaLog timestamp clientIP filePath username =
     label_time @ timestamp @ label_ip @ clientIP @ label_path @ filePath @ label_user @ username"

text \<open>\<^verbatim>\<open>logMediaAccess\<close>: \<^verbatim>\<open>log.Info(logMsg)\<close>, then \<^verbatim>\<open>fmt.Println(logMsg)\<close>.\<close>

definition logMediaAccess ::
  "string \<Rightarrow> string \<Rightarrow> string \<Rightarrow> string \<Rightarrow> ('w, string) Context \<Rightarrow> ('w, string) Context" where
  "logMediaAccess timestamp clientIP filePath username c =
     (let logMsg = formatMediaLog timestamp clientIP filePath username
      in c\<lparr>logrus := logrus c @ [logMsg], stdout := stdout c @ [logMsg @ [CHR 0x0A]]\<rparr>)"

text \<open>
  \<^verbatim>\<open>for _, item := range resp.Content {
      if isMediaFileName(item.Name) {
          hasMediaFile = true
          mediaFiles = append(mediaFiles, item.Path+"/"+item.Name) } }\<close>
\<close>

fun collectMediaFiles :: "(rune \<Rightarrow> rune) \<Rightarrow> fsObject list \<Rightarrow> bool \<times> string list \<Rightarrow> bool \<times> string list" where
  "collectMediaFiles T [] found = found"
| "collectMediaFiles T (item # rest) (hasMediaFile, mediaFiles) =
     (if isMediaFileName T (Name item)
      then collectMediaFiles T rest (True, mediaFiles @ [Path item @ ''/'' @ Name item])
      else collectMediaFiles T rest (hasMediaFile, mediaFiles))"

text \<open>
  \<^verbatim>\<open>hasMediaFile := false
  mediaFiles := []string{}
  if resp.Code == 200 && len(resp.Content) > 0 { for ... }\<close>
\<close>

definition listMediaFiles :: "(rune \<Rightarrow> rune) \<Rightarrow> fsListResponse \<Rightarrow> bool \<times> string list" where
  "listMediaFiles T resp =
     (if Code resp = 200 \<and> length (Content resp) > 0
      then collectMediaFiles T (Content resp) (False, [])
      else (False, []))"

text \<open>\<^verbatim>\<open>for _, mediaPath := range mediaFiles { logMediaAccess(time.Now(), clientIP, mediaPath, username) }\<close>\<close>

fun logMediaFiles :: "string \<Rightarrow> string \<Rightarrow> string list \<Rightarrow> ('w, string) Context \<Rightarrow> ('w, string) Context" where
  "logMediaFiles clientIP username [] c = c"
| "logMediaFiles clientIP username (mediaPath # rest) c =
     logMediaFiles clientIP username rest (logMediaAccess (now c) clientIP mediaPath username c)"

text \<open>\<^verbatim>\<open>handleFSListRequest\<close> (the decoded request is not used by this revision).\<close>

definition handleFSListRequest ::
  "(rune \<Rightarrow> rune) \<Rightarrow> encoding_json \<Rightarrow> 'w gin_ResponseWriter \<Rightarrow> chain \<Rightarrow> ('w, string) Context \<Rightarrow> ('w, string) Context" where
  "handleFSListRequest T J I rest c =
     (case saveRequestBody c of (requestBody, c1) \<Rightarrow>
      case NextCaptured I rest c1 of (c2, responseWriter) \<Rightarrow>
        (let req = decodeRequest J requestBody;
             responseData = body responseWriter;
             resp = decodeListResponse J responseData
         in case listMediaFiles T resp of (hasMediaFile, mediaFiles) \<Rightarrow>
              if hasMediaFile
              then (let clientIP = ClientIP c2; username = getUserName c2
                    in logMediaFiles clientIP username mediaFiles c2)
              else c2))"

text \<open>
  \<^verbatim>\<open>handleFSGetRequest\<close>:
  \<^verbatim>\<open>if resp.Code == 200 && isMediaFileName(resp.Data.Name) {
      clientIP := c.ClientIP()
      mediaPath := resp.Data.Path
      username := getUserName(c)
      logMediaAccess(time.Now(), clientIP, mediaPath, username) }\<close>
\<close>

definition handleFSGetRequest ::
  "(rune \<Rightarrow> rune) \<Rightarrow> encoding_json \<Rightarrow> 'w gin_ResponseWriter \<Rightarrow> chain \<Rightarrow> ('w, string) Context \<Rightarrow> ('w, string) Context" where
  "handleFSGetRequest T J I rest c =
     (case saveRequestBody c of (requestBody, c1) \<Rightarrow>
      case NextCaptured I rest c1 of (c2, responseWriter) \<Rightarrow>
        (let req = decodeRequest J requestBody;
             responseData = body responseWriter;
             resp = decodeGetResponse J responseData
         in if GetCode resp = 200 \<and> isMediaFileName T (Name (Data resp))
            then (let clientIP = ClientIP c2;
                      mediaPath = Path (Data resp);
                      username = getUserName c2
                  in logMediaAccess (now c2) clientIP mediaPath username c2)
            else c2))"

text \<open>\<^verbatim>\<open>MediaLoggerMiddleware\<close>: the function it returns, applied to a context.\<close>

definition MediaLoggerMiddleware ::
  "(rune \<Rightarrow> rune) \<Rightarrow> encoding_json \<Rightarrow> 'w gin_ResponseWriter \<Rightarrow> chain \<Rightarrow> ('w, string) Context \<Rightarrow> ('w, string) Context" where
  "MediaLoggerMiddleware T J I rest c =
     (let path = URL_Path (Request c)
      in if hasIgnoredPrefix path ignoredPaths then Next I rest c
         else if isMediaFilePath T path then
           (let c1 = Next I rest c;
                clientIP = ClientIP c1;
                username = getUserName c1
            in logMediaAccess (now c1) clientIP path username c1)
         else if HasPrefix path ''/api/'' then
           (if path = ''/api/fs/list'' \<or> HasPrefix path ''/api/fs/list?''
            then handleFSListRequest T J I rest c
            else if path = ''/api/fs/get'' \<or> HasPrefix path ''/api/fs/get?''
            then handleFSGetRequest T J I rest c
            else Next I rest c)
         else Next I rest c)"

subsection \<open>The debug middleware of the same revision\<close>

text \<open>
  \<^verbatim>\<open>for _, item := range listResp.Content {
      if isMediaFileName(item.Name) {
          isMedia = true
          mediaFilePath = item.Path + "/" + item.Name
          break } }\<close>
\<close>

fun firstMediaFile :: "(rune \<Rightarrow> rune) \<Rightarrow> fsObject list \<Rightarrow> bool \<times> string \<Rightarrow> bool \<times> string" where
  "firstMediaFile T [] found = found"
| "firstMediaFile T (item # rest) (isMedia, mediaFilePath) =
     (if isMediaFileName T (Name item) then (True, Path item @ ''/'' @ Name item)
      else firstMediaFile T rest (isMedia, mediaFilePath))"

text \<open>
  \<^verbatim>\<open>MediaLoggerWithDebug\<close>: it looks for a media file in the path, then in the request
  body, then in the response decoded as a list envelope, then in the response decoded
  as a get envelope, and here it uses a decoded value only when \<^verbatim>\<open>json.Unmarshal\<close>
  returned no error (\<^verbatim>\<open>err == nil\<close>). The pair is \<^verbatim>\<open>isMedia\<close> and \<^verbatim>\<open>mediaFilePath\<close>.
\<close>

definition MediaLoggerWithDebug ::
  "(rune \<Rightarrow> rune) \<Rightarrow> encoding_json \<Rightarrow> 'w gin_ResponseWriter \<Rightarrow> chain
     \<Rightarrow> ('w, string) Context \<Rightarrow> ('w, string) Context" where
  "MediaLoggerWithDebug T J I rest c =
     (let path = URL_Path (Request c)
      in case (if Body (Request c) \<noteq> None \<and> Method (Request c) \<noteq> ''GET''
               then saveRequestBody c else ([], c)) of (requestBody, c1) \<Rightarrow>
         case NextCaptured I rest c1 of (c2, responseWriter) \<Rightarrow>
           (let found0 = (False, path);
                found1 = (if isMediaFilePath T path then (True, snd found0) else found0);
                found2 =
                  (if \<not> fst found1 \<and> length requestBody > 0 then
                     (case Unmarshal_fsRequest J requestBody fsRequest_zero of (req, err) \<Rightarrow>
                        if err = None \<and> ReqPath req \<noteq> [] \<and> Contains (ReqPath req) ''.''
                           \<and> mediaExtensions (ToLower T (Ext (ReqPath req)))
                        then (True, ReqPath req) else found1)
                   else found1);
                responseData = body responseWriter;
                found3 =
                  (if \<not> fst found2 \<and> length responseData > 0 then
                     (let found =
                            (case Unmarshal_fsListResponse J responseData fsListResponse_zero of
                               (listResp, err) \<Rightarrow>
                                 if err = None \<and> Code listResp = 200
                                 then firstMediaFile T (Content listResp) found2 else found2)
                      in if \<not> fst found then
                           (case Unmarshal_fsGetResponse J responseData fsGetResponse_zero of
                              (getResp, err) \<Rightarrow>
                                if err = None \<and> GetCode getResp = 200
                                   \<and> isMediaFileName T (Name (Data getResp))
                                then (True, Path (Data getResp)) else found)
                         else found)
                   else found2)
            in if fst found3
               then logMediaAccess (now c2) (ClientIP c2) (snd found3) (getUserName c2) c2
               else c2))"

section \<open>media_logger.go, the revision that logs in the [GIN] format\<close>

text \<open>
  The three \<^verbatim>\<open>log.Infof\<close> calls of this revision, each with its arguments in the order of
  the format string; the time stamp and the latency, which come from the clock, are
  left out. \<open>DirectLine\<close> is the line that ends in the direct-access marker,
  \<open>ListLine\<close> the line with the directory and the slice of media files, \<open>GetLine\<close>
  the line with the file name and its path.
\<close>

datatype gin_line =
    DirectLine int string string string
  | ListLine int string string string string "string list"
  | GetLine int string string string string string

text \<open>
  \<^verbatim>\<open>for _, item := range resp.Content {
      if isMediaFile(item.Name) {
          hasMediaFile = true
          mediaFiles = append(mediaFiles, item.Name) } }\<close>
  (\<^verbatim>\<open>isMediaFile\<close> of this revision has the body of \<^verbatim>\<open>isMediaFileName\<close>).
\<close>

fun collectMediaNames :: "(rune \<Rightarrow> rune) \<Rightarrow> fsObject list \<Rightarrow> bool \<times> string list \<Rightarrow> bool \<times> string list" where
  "collectMediaNames T [] found = found"
| "collectMediaNames T (item # rest) (hasMediaFile, mediaFiles) =
     (if isMediaFileName T (Name item)
      then collectMediaNames T rest (True, mediaFiles @ [Name item])
      else collectMediaNames T rest (hasMediaFile, mediaFiles))"

definition listMediaNames :: "(rune \<Rightarrow> rune) \<Rightarrow> fsListResponse \<Rightarrow> bool \<times> string list" where
  "listMediaNames T resp =
     (if Code resp = 200 \<and> length (Content resp) > 0
      then collectMediaNames T (Content resp) (False, [])
      else (False, []))"

text \<open>\<^verbatim>\<open>handleFSListRequest\<close>: one \<^verbatim>\<open>log.Infof\<close> with the whole slice when it found a media file.\<close>

definition handleFSListRequest_gin ::
  "(rune \<Rightarrow> rune) \<Rightarrow> encoding_json \<Rightarrow> 'w gin_ResponseWriter \<Rightarrow> chain \<Rightarrow> ('w, gin_line) Context \<Rightarrow> ('w, gin_line) Context" where
  "handleFSListRequest_gin T J I rest c =
     (case saveRequestBody c of (requestBody, c1) \<Rightarrow>
      case NextCaptured I rest c1 of (c2, responseWriter) \<Rightarrow>
        (let req = decodeRequest J requestBody;
             responseData = body responseWriter;
             resp = decodeListResponse J responseData
         in case listMediaNames T resp of (hasMediaFile, mediaFiles) \<Rightarrow>
              if hasMediaFile
              then (let clientIP = ClientIP c2;
                        method = Method (Request c2);
                        statusCode = responseBodyWriter_Status I responseWriter
                    in c2\<lparr>logrus := logrus c2 @
                         [ListLine statusCode clientIP method (URL_Path (Request c2)) (ReqPath req) mediaFiles]\<rparr>)
              else c2))"

text \<open>\<^verbatim>\<open>handleFSGetRequest\<close>: the line carries \<^verbatim>\<open>resp.Data.Name\<close> and \<^verbatim>\<open>resp.Data.Path\<close>.\<close>

definition handleFSGetRequest_gin ::
  "(rune \<Rightarrow> rune) \<Rightarrow> encoding_json \<Rightarrow> 'w gin_ResponseWriter \<Rightarrow> chain \<Rightarrow> ('w, gin_line) Context \<Rightarrow> ('w, gin_line) Context" where
  "handleFSGetRequest_gin T J I rest c =
     (case saveRequestBody c of (requestBody, c1) \<Rightarrow>
      case NextCaptured I rest c1 of (c2, responseWriter) \<Rightarrow>
        (let req = decodeRequest J requestBody;
             responseData = body responseWriter;
             resp = decodeGetResponse J responseData
         in if GetCode resp = 200 \<and> isMediaFileName T (Name (Data resp))
            then (let clientIP = ClientIP c2;
                      method = Method (Request c2);
                      statusCode = responseBodyWriter_Status I responseWriter
                  in c2\<lparr>logrus := logrus c2 @
                       [GetLine statusCode clientIP method (URL_Path (Request c2))
                          (Name (Data resp)) (Path (Data resp))]\<rparr>)
            else c2))"

definition MediaLoggerMiddleware_gin ::
  "(rune \<Rightarrow> rune) \<Rightarrow> encoding_json \<Rightarrow> 'w gin_ResponseWriter \<Rightarrow> chain \<Rightarrow> ('w, gin_line) Context \<Rightarrow> ('w, gin_line) Context" where
  "MediaLoggerMiddleware_gin T J I rest c =
     (let path = URL_Path (Request c)
      in if hasIgnoredPrefix path ignoredPaths then Next I rest c
         else if isMediaFilePath T path then
           (let c1 = Next I rest c;
                clientIP = ClientIP c1;
                method = Method (Request c1);
                statusCode = Status I (Writer c1)
            in c1\<lparr>logrus := logrus c1 @ [DirectLine statusCode clientIP method path]\<rparr>)
         else if HasPrefix path ''/api/'' then
           (if path = ''/api/fs/list'' \<or> HasPrefix path ''/api/fs/list?''
            then handleFSListRequest_gin T J I rest c
            else if path = ''/api/fs/get'' \<or> HasPrefix path ''/api/fs/get?''
            then handleFSGetRequest_gin T J I rest c
            else Next I rest c)
         else Next I rest c)"

section \<open>The captured exchange and the hits, in the words of the specification\<close>

text \<open>
  The response bytes captured for a request to one of the two endpoints: the contents of
  the wrapper's buffer when \<^verbatim>\<open>c.Next()\<close> has returned.
\<close>

definition responseBytes :: "'w gin_ResponseWriter \<Rightarrow> chain \<Rightarrow> ('w, 'l) Context \<Rightarrow> bytes" where
  "responseBytes I rest c = body (snd (NextCaptured I rest (snd (saveRequestBody c))))"

text \<open>
  The entries of a listing whose name has an extension in the registry, in the order of
  the listing.
\<close>

definition mediaEntries :: "(rune \<Rightarrow> rune) \<Rightarrow> fsObject list \<Rightarrow> fsObject list" where
  "mediaEntries T content = filter (\<lambda>item. IsMedia_spec T (Name item)) content"

section \<open>log_filter.go: the filter over rendered log lines\<close>

text \<open>
  The regular expressions of \<^verbatim>\<open>initRegex\<close> use literals, character classes, one-or-more
  of a class, sequence and alternation. \<open>matchPrefix r s\<close> lists what is left of \<open>s\<close>
  after each way \<open>r\<close> matches a prefix of it; \<^verbatim>\<open>MatchString\<close> looks for a match at any
  offset.
\<close>

datatype regexp =
    Lit string
  | Class "char \<Rightarrow> bool"
  | Plus "char \<Rightarrow> bool"
  | Seq regexp regexp
  | Alt regexp regexp
  | NoMatch

fun matchPrefix :: "regexp \<Rightarrow> string \<Rightarrow> string list" where
  "matchPrefix (Lit l) s = (if HasPrefix s l then [drop (length l) s] else [])"
| "matchPrefix (Class P) [] = []"
| "matchPrefix (Class P) (c # cs) = (if P c then [cs] else [])"
| "matchPrefix (Plus P) [] = []"
| "matchPrefix (Plus P) (c # cs) = (if P c then cs # matchPrefix (Plus P) cs else [])"
| "matchPrefix (Seq a b) s = concat (map (matchPrefix b) (matchPrefix a s))"
| "matchPrefix (Alt a b) s = matchPrefix a s @ matchPrefix b s"
| "matchPrefix NoMatch s = []"

definition MatchString :: "regexp \<Rightarrow> string \<Rightarrow> bool" where
  "MatchString r s = list_ex (\<lambda>t. matchPrefix r t \<noteq> []) (suffixes s)"

text \<open>The class \<^verbatim>\<open>\s\<close> of Go's regexp syntax: tab, newline, form feed, carriage return, space.\<close>

definition isSpace :: "char \<Rightarrow> bool" where
  "isSpace c = (c \<in> set [CHR 0x09, CHR 0x0A, CHR 0x0C, CHR 0x0D, CHR 0x20])"

definition isAlnum :: "char \<Rightarrow> bool" where
  "isAlnum c = ((CHR ''a'' \<le> c \<and> c \<le> CHR ''z'') \<or> (CHR ''A'' \<le> c \<and> c \<le> CHR ''Z'')
                 \<or> (CHR ''0'' \<le> c \<and> c \<le> CHR ''9''))"

definition quote :: char where
  "quote = CHR 0x22"

text \<open>
  \<^verbatim>\<open>getMediaExtensions\<close>: the keys of \<^verbatim>\<open>supportedExtensions\<close> without their dot (in the
  order of the table; Go ranges over the map in no fixed order, and the alternation
  built from the result matches the same strings in any order).
\<close>

definition getMediaExtensions :: "string list" where
  "getMediaExtensions = map (drop 1) mediaExtensions_keys"

definition extensionsPattern :: regexp where
  "extensionsPattern = foldr (\<lambda>ext r. Alt (Lit ext) r) getMediaExtensions NoMatch"

subsection \<open>The revision with one expression for each endpoint\<close>

definition listApiRegex :: regexp where
  "listApiRegex = Seq (Lit ''POST'') (Seq (Plus isSpace) (Lit (quote # ''/api/fs/list'' @ [quote])))"

definition getApiRegex :: regexp where
  "getApiRegex = Seq (Lit ''POST'') (Seq (Plus isSpace) (Lit (quote # ''/api/fs/get'' @ [quote])))"

definition pathRegex :: regexp where
  "pathRegex =
     Seq (Lit [quote]) (Seq (Plus (\<lambda>c. c \<noteq> quote)) (Seq (Lit ''.'') (Seq extensionsPattern (Lit [quote]))))"

text \<open>
  \<^verbatim>\<open>func (w *LoggerFilterWriter) Write(p []byte) (n int, err error)\<close>: \<open>W\<close> is the
  \<^verbatim>\<open>Write\<close> of the wrapped \<^verbatim>\<open>io.Writer\<close> and \<open>w\<close> its state. A suppressed line returns
  \<^verbatim>\<open>len(p), nil\<close> and leaves the wrapped writer as it was.
\<close>

definition LoggerFilterWriter_Write ::
  "('w \<Rightarrow> bytes \<Rightarrow> 'w \<times> nat \<times> go_error option) \<Rightarrow> 'w \<Rightarrow> bytes \<Rightarrow> 'w \<times> nat \<times> go_error option" where
  "LoggerFilterWriter_Write W w p =
     (let logLine = p
      in if Contains logLine ''[GIN]'' then
           (let isListApi = MatchString listApiRegex logLine;
                isGetApi = MatchString getApiRegex logLine
            in if isListApi \<or> isGetApi then
                 (if MatchString pathRegex logLine then W w p else (w, length p, None))
               else if Contains logLine ''/assets/'' \<or> Contains logLine ''/images/''
                       \<or> Contains logLine ''/favicon.ico''
               then (w, length p, None)
               else W w p)
         else W w p)"

subsection \<open>The revision with a list of API paths\<close>

definition apiPathsToFilter :: "string list" where
  "apiPathsToFilter =
     [''/api/fs/list'', ''/api/fs/get'', ''/api/me'', ''/api/public'', ''/api/auth'', ''/api/admin'',
      ''/api/fs/other'', ''/api/fs/dirs'']"

definition apiRegexes :: "regexp list" where
  "apiRegexes = map (\<lambda>path. Seq (Plus isSpace) (Lit (quote # path))) apiPathsToFilter"

definition pathRegex_loose :: regexp where
  "pathRegex_loose =
     Seq (Class (\<lambda>c. \<not> isAlnum c)) (Seq extensionsPattern (Class (\<lambda>c. \<not> isAlnum c)))"

text \<open>
  \<^verbatim>\<open>for ext := range supportedExtensions {
      if strings.Contains(strings.ToLower(logLine), ext) { ... break } }\<close>
\<close>

definition containsSupportedExtension :: "(rune \<Rightarrow> rune) \<Rightarrow> string \<Rightarrow> bool" where
  "containsSupportedExtension T logLine =
     list_ex (\<lambda>ext. Contains (ToLower T logLine) ext) mediaExtensions_keys"

text \<open>\<^verbatim>\<open>Write\<close> of this revision (\<^verbatim>\<open>debugMode\<close> only adds debug output and is left out).\<close>

definition LoggerFilterWriter_Write_apiPaths ::
  "(rune \<Rightarrow> rune) \<Rightarrow> ('w \<Rightarrow> bytes \<Rightarrow> 'w \<times> nat \<times> go_error option) \<Rightarrow> 'w \<Rightarrow> bytes \<Rightarrow> 'w \<times> nat \<times> go_error option" where
  "LoggerFilterWriter_Write_apiPaths T W w p =
     (let logLine = p
      in if Contains logLine ''[GIN]'' then
           (let isApiCall = list_ex (\<lambda>regex. MatchString regex logLine) apiRegexes
            in if isApiCall then
                 (let hasMediaExt = containsSupportedExtension T logLine;
                      hasMediaExt = (if \<not> hasMediaExt then MatchString pathRegex_loose (ToLower T logLine)
                                     else hasMediaExt)
                  in if hasMediaExt then W w p else (w, length p, None))
               else if Contains logLine ''/assets/'' \<or> Contains logLine ''/images/''
                       \<or> Contains logLine ''/favicon.ico''
               then (w, length p, None)
               else if containsSupportedExtension T logLine then W w p
               else W w p)
         else W w p)"

section \<open>Concrete writers, payloads and requests\<close>

text \<open>
  A writer that keeps what it is given and its status code, and a writer whose client
  has gone away: each write reports zero bytes and an error.
\<close>

definition bufferWriter :: "(bytes \<times> int) gin_ResponseWriter" where
  "bufferWriter =
     \<lparr>Write = (\<lambda>(out, st) b. ((out @ b, st), length b, None)),
      WriteString = (\<lambda>(out, st) s. ((out @ s, st), length s, None)),
      WriteHeader = (\<lambda>(out, st) code. (out, code)),
      Status = snd\<rparr>"

definition brokenWriter :: "(bytes \<times> int) gin_ResponseWriter" where
  "brokenWriter =
     \<lparr>Write = (\<lambda>w b. (w, 0, Some (GoError ''write: broken pipe''))),
      WriteString = (\<lambda>w s. (w, 0, Some (GoError ''write: broken pipe''))),
      WriteHeader = (\<lambda>(out, st) code. (out, code)),
      Status = snd\<rparr>"

text \<open>A chain whose handler writes one slice and stops.\<close>

definition respond :: "bytes \<Rightarrow> chain" where
  "respond b = (\<lambda>r u. CallWrite b (\<lambda>res. Return u))"

definition quoted :: "string \<Rightarrow> string" where
  "quoted s = quote # s @ [quote]"

text \<open>
  The entries of \<^verbatim>\<open>unicode.CaseRanges\<close> for U+212A KELVIN SIGN (lower case \<open>k\<close>) and U+0130
  (lower case \<open>i\<close>), every other rune above ASCII left as it is: enough of the table for
  the names used below. \<open>kelvin\<close> is the UTF-8 encoding of U+212A.
\<close>

definition sampleCaseRanges :: "rune \<Rightarrow> rune" where
  "sampleCaseRanges r = (if r = 0x212A then 0x6B else if r = 0x130 then 0x69 else r)"

definition kelvin :: string where
  "kelvin = [CHR 0xE2, CHR 0x84, CHR 0xAA]"

text \<open>A file name and a request path whose extension is written with the Kelvin sign.\<close>

definition kelvinName :: string where
  "kelvinName = ''c.m'' @ kelvin @ ''v''"

definition kelvinPath :: string where
  "kelvinPath = ''/d/Clip.M'' @ kelvin @ ''V''"

text \<open>
  Six response bodies:
  \<^verbatim>\<open>{"code":200,"content":[{"name":"a.mp4","path":"/x"},{"name":"a.txt","path":"/x"},{"name":"b.mkv","path":"/x"}]}\<close>,
  \<^verbatim>\<open>{"code":200,"content":[{"name":"A.MP4","path":"/x"},{"name":"Notes.TXT","path":"/x"},{"name":"c.mKv","path":"/y"}]}\<close>
  where the \<^verbatim>\<open>K\<close> of the last name is the Kelvin sign,
  \<^verbatim>\<open>{"code":200,"content":[{"name":"a.mp4","path":1}]}\<close>, whose \<^verbatim>\<open>path\<close> is a number,
  \<^verbatim>\<open>{"code":200,"data":{"name":"B.MKV","path":""}}\<close>,
  \<^verbatim>\<open>{"code":200,"data":{"name":"c.mKv","path":"/y/c"}}\<close> with the Kelvin sign again,
  and the truncated \<^verbatim>\<open>{"code":200,"con\<close>.
\<close>

definition list_payload :: bytes where
  "list_payload =
     ''{'' @ quoted ''code'' @ '':200,'' @ quoted ''content'' @ '':[{'' @
       quoted ''name'' @ '':'' @ quoted ''a.mp4'' @ '','' @ quoted ''path'' @ '':'' @ quoted ''/x'' @ ''},{'' @
       quoted ''name'' @ '':'' @ quoted ''a.txt'' @ '','' @ quoted ''path'' @ '':'' @ quoted ''/x'' @ ''},{'' @
       quoted ''name'' @ '':'' @ quoted ''b.mkv'' @ '','' @ quoted ''path'' @ '':'' @ quoted ''/x'' @ ''}]}''"

definition folded_payload :: bytes where
  "folded_payload =
     ''{'' @ quoted ''code'' @ '':200,'' @ quoted ''content'' @ '':[{'' @
       quoted ''name'' @ '':'' @ quoted ''A.MP4'' @ '','' @ quoted ''path'' @ '':'' @ quoted ''/x'' @ ''},{'' @
       quoted ''name'' @ '':'' @ quoted ''Notes.TXT'' @ '','' @ quoted ''path'' @ '':'' @ quoted ''/x'' @ ''},{'' @
       quoted ''name'' @ '':'' @ quoted kelvinName @ '','' @ quoted ''path'' @ '':'' @
       quoted ''/y'' @ ''}]}''"

definition mistyped_payload :: bytes where
  "mistyped_payload =
     ''{'' @ quoted ''code'' @ '':200,'' @ quoted ''content'' @ '':[{'' @
       quoted ''name'' @ '':'' @ quoted ''a.mp4'' @ '','' @ quoted ''path'' @ '':1}]}''"

definition get_payload :: bytes where
  "get_payload =
     ''{'' @ quoted ''code'' @ '':200,'' @ quoted ''data'' @ '':{'' @
       quoted ''name'' @ '':'' @ quoted ''B.MKV'' @ '','' @ quoted ''path'' @ '':'' @ quoted [] @ ''}}''"

definition kelvin_get_payload :: bytes where
  "kelvin_get_payload =
     ''{'' @ quoted ''code'' @ '':200,'' @ quoted ''data'' @ '':{'' @
       quoted ''name'' @ '':'' @ quoted kelvinName @ '','' @ quoted ''path'' @ '':'' @
       quoted ''/y/c'' @ ''}}''"

definition truncated_payload :: bytes where
  "truncated_payload = ''{'' @ quoted ''code'' @ '':200,'' @ [quote] @ ''con''"

text \<open>
  What \<^verbatim>\<open>json.Unmarshal\<close> does on these bodies, for each of the three target types. A
  body that is not valid JSON is refused before anything is stored: the target keeps
  its value and a syntax error comes back. A key that names no field of the target is
  skipped without an error, so a list body decoded as a get envelope (or the reverse)
  only sets the code, and none of the bodies has a \<^verbatim>\<open>path\<close> at its top level for
  \<^verbatim>\<open>fsRequest\<close>. For a JSON value that does not fit its field (the number under
  \<^verbatim>\<open>path\<close>) the package documents that it "skips that field and completes the
  unmarshaling as best it can" and returns an \<^verbatim>\<open>UnmarshalTypeError\<close>: the fields that fit
  are stored. Bodies other than the first five above are treated as invalid.
\<close>

definition sampleJSON :: encoding_json where
  "sampleJSON =
     \<lparr>Unmarshal_fsRequest = (\<lambda>data v.
        if data \<in> set [list_payload, folded_payload, mistyped_payload, get_payload, kelvin_get_payload]
        then (v, None)
        else (v, Some (GoError ''unexpected end of JSON input''))),
      Unmarshal_fsListResponse = (\<lambda>data v.
        if data = list_payload then
          (\<lparr>Code = 200,
            Content = [\<lparr>Name = ''a.mp4'', Path = ''/x'', Type = 0\<rparr>,
                       \<lparr>Name = ''a.txt'', Path = ''/x'', Type = 0\<rparr>,
                       \<lparr>Name = ''b.mkv'', Path = ''/x'', Type = 0\<rparr>]\<rparr>, None)
        else if data = folded_payload then
          (\<lparr>Code = 200,
            Content = [\<lparr>Name = ''A.MP4'', Path = ''/x'', Type = 0\<rparr>,
                       \<lparr>Name = ''Notes.TXT'', Path = ''/x'', Type = 0\<rparr>,
                       \<lparr>Name = kelvinName, Path = ''/y'', Type = 0\<rparr>]\<rparr>, None)
        else if data = mistyped_payload then
          (\<lparr>Code = 200, Content = [\<lparr>Name = ''a.mp4'', Path = [], Type = 0\<rparr>]\<rparr>,
           Some (GoError ''json: cannot unmarshal number into Go struct field of type string''))
        else if data \<in> set [get_payload, kelvin_get_payload] then (v\<lparr>Code := 200\<rparr>, None)
        else (v, Some (GoError ''unexpected end of JSON input''))),
      Unmarshal_fsGetResponse = (\<lambda>data v.
        if data = get_payload then
          (\<lparr>GetCode = 200, Data = (Data v)\<lparr>Name := ''B.MKV'', Path := []\<rparr>\<rparr>, None)
        else if data = kelvin_get_payload then
          (\<lparr>GetCode = 200, Data = (Data v)\<lparr>Name := kelvinName, Path := ''/y/c''\<rparr>\<rparr>, None)
        else if data \<in> set [list_payload, folded_payload, mistyped_payload] then (v\<lparr>GetCode := 200\<rparr>, None)
        else (v, Some (GoError ''unexpected end of JSON input'')))\<rparr>"

text \<open>A request for \<open>path\<close> with an empty body, and a context that has logged nothing.\<close>

definition requestFor :: "string \<Rightarrow> string \<Rightarrow> http_Request" where
  "requestFor method path =
     \<lparr>URL_Path = path, Method = method, Body = Some (Reader [] None), Authorization = []\<rparr>"

definition freshContext :: "http_Request \<Rightarrow> (bytes \<times> int, 'l) Context" where
  "freshContext r =
     \<lparr>Request = r, Writer = ([], 200), user = None, ClientIP = ''10.0.0.7'',
      now = ''t0'', logrus = [], stdout = []\<rparr>"

text \<open>Fresh requests to the two endpoints.\<close>

definition listRequest :: "(bytes \<times> int, 'l) Context" where
  "listRequest = freshContext (requestFor ''POST'' ''/api/fs/list'')"

definition getRequest :: "(bytes \<times> int, 'l) Context" where
  "getRequest = freshContext (requestFor ''POST'' ''/api/fs/get'')"

text \<open>A listing request whose upload broke off after two bytes.\<close>

definition interruptedUpload :: "(bytes \<times> int, 'l) Context" where
  "interruptedUpload =
     listRequest\<lparr>Request := (requestFor ''POST'' ''/api/fs/list'')
                    \<lparr>Body := Some (Reader ''{}'' (Some (GoError ''unexpected EOF'')))\<rparr>\<rparr>"

text \<open>An \<^verbatim>\<open>io.Writer\<close> that appends what it is given to its state.\<close>

definition appendWriter :: "bytes \<Rightarrow> bytes \<Rightarrow> bytes \<times> nat \<times> go_error option" where
  "appendWriter out p = (out @ p, length p, None)"

section \<open>Properties of the library functions and the registry\<close>

lemma Ext_loop_skip:
  "\<forall>c\<in>set t. c \<noteq> CHR ''/'' \<and> c \<noteq> CHR ''.'' \<Longrightarrow>
     Ext_loop (t @ rest) passed = Ext_loop rest (rev t @ passed)"
  by (induction t arbitrary: passed) (simp_all add: IsPathSeparator_def)

lemma Ext_suffix:
  assumes "CHR ''.'' \<notin> set e" and "CHR ''/'' \<notin> set e"
  shows "Ext (pre @ CHR ''.'' # e) = CHR ''.'' # e"
proof -
  have "Ext_loop (rev e @ CHR ''.'' # rev pre) [] = Ext_loop (CHR ''.'' # rev pre) (rev (rev e) @ [])"
    using assms by (intro Ext_loop_skip) auto
  then show ?thesis by (simp add: Ext_def IsPathSeparator_def)
qed

lemma Ext_loop_Cons:
  "Ext_loop r passed = c # x \<Longrightarrow>
     c = CHR ''.'' \<and> (\<exists>t rest. r = t @ CHR ''.'' # rest \<and> x = rev t @ passed
        \<and> CHR ''.'' \<notin> set t \<and> CHR ''/'' \<notin> set t)"
proof (induction r arbitrary: passed)
  case Nil
  then show ?case by simp
next
  case (Cons a r)
  show ?case
  proof (cases "a = CHR ''/'' \<or> a = CHR ''.''")
    case True
    with Cons.prems show ?thesis by (auto simp: IsPathSeparator_def)
  next
    case False
    with Cons.prems have "Ext_loop r (a # passed) = c # x" by (simp add: IsPathSeparator_def)
    from Cons.IH[OF this] obtain t rest where c: "c = CHR ''.''" and "r = t @ CHR ''.'' # rest"
      "x = rev t @ a # passed" "CHR ''.'' \<notin> set t" "CHR ''/'' \<notin> set t" by blast
    with False have "a # r = (a # t) @ CHR ''.'' # rest \<and> x = rev (a # t) @ passed
        \<and> CHR ''.'' \<notin> set (a # t) \<and> CHR ''/'' \<notin> set (a # t)" by auto
    with c show ?thesis by blast
  qed
qed

lemma Ext_Cons:
  assumes "Ext name = c # e"
  shows "c = CHR ''.'' \<and> (\<exists>pre. name = pre @ CHR ''.'' # e) \<and> CHR ''.'' \<notin> set e \<and> CHR ''/'' \<notin> set e"
proof -
  from assms have "Ext_loop (rev name) [] = c # e" by (simp add: Ext_def)
  from Ext_loop_Cons[OF this] obtain t rest where c: "c = CHR ''.''"
    and r: "rev name = t @ CHR ''.'' # rest" and e: "e = rev t"
    and t: "CHR ''.'' \<notin> set t" "CHR ''/'' \<notin> set t" by auto
  from r have "name = rev rest @ CHR ''.'' # rev t" by (simp add: rev_swap)
  with c e t show ?thesis by auto
qed

lemma trailingExtension_suffix:
  "CHR ''.'' \<notin> set e \<Longrightarrow> trailingExtension (pre @ CHR ''.'' # e) = Some e"
  by (simp add: trailingExtension_def takeWhile_append)

lemma dropWhile_dot:
  "CHR ''.'' \<in> set r \<Longrightarrow> \<exists>rest. dropWhile (\<lambda>c. c \<noteq> CHR ''.'') r = CHR ''.'' # rest"
  by (induction r) auto

lemma trailingExtension_Some:
  assumes "trailingExtension name = Some e"
  shows "(\<exists>pre. name = pre @ CHR ''.'' # e) \<and> CHR ''.'' \<notin> set e"
proof -
  let ?r = "rev name"
  from assms have dot: "CHR ''.'' \<in> set ?r"
    and e_def: "e = rev (takeWhile (\<lambda>c. c \<noteq> CHR ''.'') ?r)"
    by (auto simp: trailingExtension_def split: if_splits)
  have "?r = takeWhile (\<lambda>c. c \<noteq> CHR ''.'') ?r @ dropWhile (\<lambda>c. c \<noteq> CHR ''.'') ?r" by simp
  moreover from dropWhile_dot[OF dot] obtain rest
    where "dropWhile (\<lambda>c. c \<noteq> CHR ''.'') ?r = CHR ''.'' # rest" ..
  ultimately have "?r = rev e @ CHR ''.'' # rest" using e_def by simp
  then have "name = rev rest @ CHR ''.'' # e" by (simp add: rev_swap)
  moreover have "CHR ''.'' \<notin> set e" using e_def by (auto dest: set_takeWhileD)
  ultimately show ?thesis by blast
qed


lemma DecodeRune_ascii: "of_char c < (0x80::int) \<Longrightarrow> DecodeRuneInString (c # t) = (of_char c, 1)"
  by (simp add: Let_def)

lemma DecodeRune_skips_high:
  "DecodeRuneInString (c # t) = (r, w) \<Longrightarrow> \<forall>x\<in>set (take (w - 1) t). (0x80::int) \<le> of_char x"
  by (auto simp: Let_def leadByte_def numeral_2_eq_2 numeral_3_eq_3
        split: if_splits option.splits list.splits prod.splits)

lemma runes_slash: "CHR ''/'' \<in> set s \<Longrightarrow> 47 \<in> set (runes s)"
proof (induction s rule: runes.induct)
  case 1
  then show ?case by simp
next
  case (2 c t)
  obtain r w where d: "DecodeRuneInString (c # t) = (r, w)" by (cases "DecodeRuneInString (c # t)")
  show ?case
  proof (cases "c = CHR ''/''")
    case True
    then have "DecodeRuneInString (c # t) = (47, 1)" by (simp add: Let_def)
    then show ?thesis by simp
  next
    case False
    with "2.prems" have "CHR ''/'' \<in> set t" by simp
    moreover have "CHR ''/'' \<notin> set (take (w - 1) t)"
      using DecodeRune_skips_high[OF d] by fastforce
    ultimately have "CHR ''/'' \<in> set (drop (w - 1) t)"
      by (metis Un_iff append_take_drop_id set_append)
    with "2.IH"[OF d[symmetric]] d show ?thesis by simp
  qed
qed

lemma EncodeRune_slash: "EncodeRune 47 = ''/''"
  by code_simp

lemma strings_Map_slash:
  assumes "mapping 47 = 47" and "CHR ''/'' \<in> set s"
  shows "CHR ''/'' \<in> set (strings_Map mapping s)"
proof -
  from runes_slash[OF assms(2)] have "47 \<in> set (runes s)" .
  moreover have "CHR ''/'' \<in> set (EncodeRune (mapping 47))"
    using assms(1) by (simp add: EncodeRune_slash)
  ultimately have "\<exists>r\<in>set (runes s). CHR ''/'' \<in> set (let r' = mapping r in if 0 \<le> r' then EncodeRune r' else [])"
    using assms(1) by (intro bexI[of _ 47]) (simp_all add: Let_def)
  then show ?thesis
    unfolding strings_Map_def set_concat set_map by blast
qed

lemma toLowerByte_slash: "toLowerByte (CHR ''/'') = CHR ''/''"
  by (simp add: toLowerByte_def)

lemma ToLower_slash: "CHR ''/'' \<in> set s \<Longrightarrow> CHR ''/'' \<in> set (ToLower T s)"
proof -
  assume a: "CHR ''/'' \<in> set s"
  have "unicode_ToLower T 47 = 47" by (simp add: unicode_ToLower_def)
  from strings_Map_slash[of "unicode_ToLower T" s, OF this a] have m: "CHR ''/'' \<in> set (strings_Map (unicode_ToLower T) s)" .
  from a have "toLowerByte (CHR ''/'') \<in> toLowerByte ` set s" by (rule imageI)
  then have b: "CHR ''/'' \<in> set (map toLowerByte s)" by (simp add: toLowerByte_slash)
  from a m b show ?thesis by (simp add: ToLower_def)
qed

lemma ToLower_Nil: "ToLower T [] = []"
  by (simp add: ToLower_def)

lemma registry_keys_shape:
  "list_all (\<lambda>k. CHR ''/'' \<notin> set k \<and> k \<noteq> []) mediaExtensions_keys"
  by (simp add: mediaExtensions_keys_def)

lemma registry_no_slash: "mediaExtensions ext \<Longrightarrow> CHR ''/'' \<notin> set ext"
  using registry_keys_shape by (simp add: mediaExtensions_def list_all_iff)

lemma registry_nonempty: "mediaExtensions ext \<Longrightarrow> ext \<noteq> []"
  using registry_keys_shape by (auto simp add: mediaExtensions_def list_all_iff)

lemma registry_ToLower_no_slash: "mediaExtensions (ToLower T s) \<Longrightarrow> CHR ''/'' \<notin> set s"
  using registry_no_slash ToLower_slash by blast

lemma IsMedia_spec_isMediaFilePath:
  assumes "IsMedia_spec T name" shows "isMediaFilePath T name"
proof -
  from assms obtain e where e: "trailingExtension name = Some e"
    and m: "mediaExtensions (ToLower T (CHR ''.'' # e))"
    by (auto simp: IsMedia_spec_def split: option.splits)
  from registry_ToLower_no_slash[OF m] have ns: "CHR ''/'' \<notin> set e" by simp
  from trailingExtension_Some[OF e] obtain pre where
    "name = pre @ CHR ''.'' # e" and "CHR ''.'' \<notin> set e" by blast
  with ns have "Ext name = CHR ''.'' # e" by (simp add: Ext_suffix)
  with m show ?thesis
    by (simp add: isMediaFilePath_def)
qed

lemma isMediaFilePath_IsMedia_spec:
  assumes "isMediaFilePath T name" shows "IsMedia_spec T name"
proof -
  from assms have m: "mediaExtensions (ToLower T (Ext name))"
    by (simp add: isMediaFilePath_def)
  from registry_nonempty[OF m] obtain c e where ext: "Ext name = c # e"
    by (cases "Ext name") (auto simp: ToLower_Nil)
  from Ext_Cons[OF ext] obtain pre where c: "c = CHR ''.''" and "name = pre @ CHR ''.'' # e"
    and "CHR ''.'' \<notin> set e" by blast
  then have "trailingExtension name = Some e" by (simp add: trailingExtension_suffix)
  with m ext c show ?thesis
    by (simp add: IsMedia_spec_def)
qed

lemma isMediaFilePath_eq_spec: "isMediaFilePath T name = IsMedia_spec T name"
  using IsMedia_spec_isMediaFilePath isMediaFilePath_IsMedia_spec by blast

lemma isMediaFileName_eq_spec: "isMediaFileName T name = IsMedia_spec T name"
  using isMediaFilePath_eq_spec by (simp add: isMediaFileName_def isMediaFilePath_def)

lemma hasIgnoredPrefix_iff: "hasIgnoredPrefix path ps = (\<exists>p\<in>set ps. HasPrefix path p)"
  by (induction ps) auto

section \<open>The wrapper is transparent to the handlers\<close>

lemma responseBodyWriter_Write_eq:
  "responseBodyWriter_Write I w b =
     (\<lparr>ResponseWriter = fst (Write I (ResponseWriter w) b), body = body w @ b\<rparr>,
      snd (Write I (ResponseWriter w) b))"
  by (simp add: responseBodyWriter_Write_def Let_def split: prod.splits)

lemma responseBodyWriter_WriteString_eq:
  "responseBodyWriter_WriteString I w s =
     (\<lparr>ResponseWriter = fst (WriteString I (ResponseWriter w) s), body = body w @ s\<rparr>,
      snd (WriteString I (ResponseWriter w) s))"
  by (simp add: responseBodyWriter_WriteString_def Let_def split: prod.splits)

lemma methods_simps:
  "Write (responseBodyWriter_methods I) = responseBodyWriter_Write I"
  "WriteString (responseBodyWriter_methods I) = responseBodyWriter_WriteString I"
  "WriteHeader (responseBodyWriter_methods I) = responseBodyWriter_WriteHeader I"
  "Status (responseBodyWriter_methods I) = responseBodyWriter_Status I"
  by (simp_all add: responseBodyWriter_methods_def)

lemma runHandler_captured:
  "runHandler (responseBodyWriter_methods I) h \<lparr>ResponseWriter = u, body = buf\<rparr> =
     (\<lparr>ResponseWriter = fst (runHandler I h u), body = buf @ concat (writtenSlices I h u)\<rparr>,
      snd (runHandler I h u))"
proof (induction h arbitrary: u buf)
  case (Return r)
  show ?case by simp
next
  case (CallWrite b k)
  obtain u' res where w: "Write I u b = (u', res)" by (cases "Write I u b")
  have "k res \<in> range k" by simp
  from CallWrite.IH[OF this] w show ?case
    by (simp add: methods_simps responseBodyWriter_Write_eq)
next
  case (CallWriteString s k)
  obtain u' res where w: "WriteString I u s = (u', res)" by (cases "WriteString I u s")
  have "k res \<in> range k" by simp
  from CallWriteString.IH[OF this] w show ?case
    by (simp add: methods_simps responseBodyWriter_WriteString_eq)
next
  case (CallWriteHeader code h)
  then show ?case
    by (simp add: methods_simps responseBodyWriter_WriteHeader_def)
next
  case (CallStatus k)
  have "k (Status I u) \<in> range k" by simp
  from CallStatus.IH[OF this] show ?case
    by (simp add: methods_simps responseBodyWriter_Status_def)
qed

lemma writtenSlices_captured:
  "writtenSlices (responseBodyWriter_methods I) h \<lparr>ResponseWriter = u, body = buf\<rparr> = writtenSlices I h u"
proof (induction h arbitrary: u buf)
  case (Return r)
  show ?case by simp
next
  case (CallWrite b k)
  obtain u' res where w: "Write I u b = (u', res)" by (cases "Write I u b")
  have "k res \<in> range k" by simp
  from CallWrite.IH[OF this] w show ?case
    by (simp add: methods_simps responseBodyWriter_Write_eq)
next
  case (CallWriteString s k)
  obtain u' res where w: "WriteString I u s = (u', res)" by (cases "WriteString I u s")
  have "k res \<in> range k" by simp
  from CallWriteString.IH[OF this] w show ?case
    by (simp add: methods_simps responseBodyWriter_WriteString_eq)
next
  case (CallWriteHeader code h)
  then show ?case
    by (simp add: methods_simps responseBodyWriter_WriteHeader_def)
next
  case (CallStatus k)
  have "k (Status I u) \<in> range k" by simp
  from CallStatus.IH[OF this] show ?case
    by (simp add: methods_simps responseBodyWriter_Status_def)
qed

lemma writeResults_captured:
  "writeResults (responseBodyWriter_methods I) h \<lparr>ResponseWriter = u, body = buf\<rparr> = writeResults I h u"
proof (induction h arbitrary: u buf)
  case (Return r)
  show ?case by simp
next
  case (CallWrite b k)
  obtain u' res where w: "Write I u b = (u', res)" by (cases "Write I u b")
  have "k res \<in> range k" by simp
  from CallWrite.IH[OF this] w show ?case
    by (simp add: methods_simps responseBodyWriter_Write_eq)
next
  case (CallWriteString s k)
  obtain u' res where w: "WriteString I u s = (u', res)" by (cases "WriteString I u s")
  have "k res \<in> range k" by simp
  from CallWriteString.IH[OF this] w show ?case
    by (simp add: methods_simps responseBodyWriter_WriteString_eq)
next
  case (CallWriteHeader code h)
  then show ?case
    by (simp add: methods_simps responseBodyWriter_WriteHeader_def)
next
  case (CallStatus k)
  have "k (Status I u) \<in> range k" by simp
  from CallStatus.IH[OF this] show ?case
    by (simp add: methods_simps responseBodyWriter_Status_def)
qed

lemma NextCaptured_eq:
  "NextCaptured I rest c =
     (Next I rest c,
      \<lparr>ResponseWriter = Writer (Next I rest c),
       body = concat (writtenSlices I (rest (Request c) (user c)) (Writer c))\<rparr>)"
  by (simp add: NextCaptured_def Next_def runHandler_captured split: prod.splits)

lemma Next_fields:
  "Request (Next I rest c) = Request c"
  "ClientIP (Next I rest c) = ClientIP c"
  "now (Next I rest c) = now c"
  "logrus (Next I rest c) = logrus c"
  "stdout (Next I rest c) = stdout c"
  "Writer (Next I rest c) = fst (runHandler I (rest (Request c) (user c)) (Writer c))"
  "user (Next I rest c) = snd (runHandler I (rest (Request c) (user c)) (Writer c))"
  by (simp_all add: Next_def split: prod.splits)

lemma saveRequestBody_fields:
  "Writer (snd (saveRequestBody c)) = Writer c"
  "user (snd (saveRequestBody c)) = user c"
  "ClientIP (snd (saveRequestBody c)) = ClientIP c"
  "now (snd (saveRequestBody c)) = now c"
  "logrus (snd (saveRequestBody c)) = logrus c"
  "stdout (snd (saveRequestBody c)) = stdout c"
  "URL_Path (Request (snd (saveRequestBody c))) = URL_Path (Request c)"
  "Method (Request (snd (saveRequestBody c))) = Method (Request c)"
  "Authorization (Request (snd (saveRequestBody c))) = Authorization (Request c)"
  by (simp_all add: saveRequestBody_def Let_def split: option.splits)

section \<open>What the two endpoint handlers compute\<close>

lemma collectMediaFiles_eq:
  "collectMediaFiles T items (b, acc) =
     (b \<or> mediaEntries T items \<noteq> [],
      acc @ map (\<lambda>item. Path item @ ''/'' @ Name item) (mediaEntries T items))"
  by (induction items arbitrary: b acc) (simp_all add: mediaEntries_def isMediaFileName_eq_spec)

lemma collectMediaNames_eq:
  "collectMediaNames T items (b, acc) =
     (b \<or> mediaEntries T items \<noteq> [], acc @ map Name (mediaEntries T items))"
  by (induction items arbitrary: b acc) (simp_all add: mediaEntries_def isMediaFileName_eq_spec)

lemma listMediaFiles_eq:
  "listMediaFiles T resp =
     (if Code resp = 200
      then (mediaEntries T (Content resp) \<noteq> [],
            map (\<lambda>item. Path item @ ''/'' @ Name item) (mediaEntries T (Content resp)))
      else (False, []))"
  by (cases "Content resp") (simp_all add: listMediaFiles_def collectMediaFiles_eq mediaEntries_def)

lemma listMediaNames_eq:
  "listMediaNames T resp =
     (if Code resp = 200
      then (mediaEntries T (Content resp) \<noteq> [], map Name (mediaEntries T (Content resp)))
      else (False, []))"
  by (cases "Content resp") (simp_all add: listMediaNames_def collectMediaNames_eq mediaEntries_def)

lemma listMediaFiles_flag: "fst (listMediaFiles T resp) = (snd (listMediaFiles T resp) \<noteq> [])"
  by (simp add: listMediaFiles_eq)

lemma listMediaNames_flag: "fst (listMediaNames T resp) = (snd (listMediaNames T resp) \<noteq> [])"
  by (simp add: listMediaNames_eq)

lemma logMediaFiles_eq:
  "logMediaFiles clientIP username ms c =
     c\<lparr>logrus := logrus c @ map (\<lambda>m. formatMediaLog (now c) clientIP m username) ms,
       stdout := stdout c @ map (\<lambda>m. formatMediaLog (now c) clientIP m username @ [CHR 0x0A]) ms\<rparr>"
  by (induction ms arbitrary: c) (simp_all add: logMediaAccess_def Let_def)

lemma responseBytes_eq:
  "responseBytes I rest c =
     concat (writtenSlices I (rest (Request (snd (saveRequestBody c))) (user c)) (Writer c))"
  by (simp add: responseBytes_def NextCaptured_eq saveRequestBody_fields)

lemma handleFSListRequest_eq:
  "handleFSListRequest T J I rest c =
     (let c2 = Next I rest (snd (saveRequestBody c))
      in logMediaFiles (ClientIP c2) (getUserName c2)
           (snd (listMediaFiles T (decodeListResponse J (responseBytes I rest c)))) c2)"
proof -
  obtain hasMediaFile mediaFiles
    where l: "listMediaFiles T (decodeListResponse J (responseBytes I rest c)) = (hasMediaFile, mediaFiles)"
    by (cases "listMediaFiles T (decodeListResponse J (responseBytes I rest c))")
  with listMediaFiles_flag[of T "decodeListResponse J (responseBytes I rest c)"]
  have f: "hasMediaFile = (mediaFiles \<noteq> [])" by simp
  show ?thesis
    using l f
    by (cases "saveRequestBody c")
       (simp add: handleFSListRequest_def responseBytes_def NextCaptured_eq Let_def)
qed

lemma handleFSGetRequest_eq:
  "handleFSGetRequest T J I rest c =
     (let c2 = Next I rest (snd (saveRequestBody c));
          resp = decodeGetResponse J (responseBytes I rest c)
      in if GetCode resp = 200 \<and> isMediaFileName T (Name (Data resp))
         then logMediaAccess (now c2) (ClientIP c2) (Path (Data resp)) (getUserName c2) c2
         else c2)"
  by (cases "saveRequestBody c")
     (simp add: handleFSGetRequest_def responseBytes_def NextCaptured_eq Let_def)

lemma handleFSListRequest_gin_eq:
  "handleFSListRequest_gin T J I rest c =
     (let c2 = Next I rest (snd (saveRequestBody c));
          req = decodeRequest J (fst (saveRequestBody c));
          mediaFiles = snd (listMediaNames T (decodeListResponse J (responseBytes I rest c)))
      in if mediaFiles \<noteq> []
         then c2\<lparr>logrus := logrus c2 @
                [ListLine (Status I (Writer c2)) (ClientIP c2) (Method (Request c2))
                   (URL_Path (Request c2)) (ReqPath req) mediaFiles]\<rparr>
         else c2)"
proof -
  obtain hasMediaFile mediaFiles
    where l: "listMediaNames T (decodeListResponse J (responseBytes I rest c)) = (hasMediaFile, mediaFiles)"
    by (cases "listMediaNames T (decodeListResponse J (responseBytes I rest c))")
  with listMediaNames_flag[of T "decodeListResponse J (responseBytes I rest c)"]
  have f: "hasMediaFile = (mediaFiles \<noteq> [])" by simp
  show ?thesis
    using l f
    by (cases "saveRequestBody c")
       (simp add: handleFSListRequest_gin_def responseBytes_def NextCaptured_eq Let_def
          responseBodyWriter_Status_def)
qed

lemma handleFSGetRequest_gin_eq:
  "handleFSGetRequest_gin T J I rest c =
     (let c2 = Next I rest (snd (saveRequestBody c));
          resp = decodeGetResponse J (responseBytes I rest c)
      in if GetCode resp = 200 \<and> isMediaFileName T (Name (Data resp))
         then c2\<lparr>logrus := logrus c2 @
                [GetLine (Status I (Writer c2)) (ClientIP c2) (Method (Request c2))
                   (URL_Path (Request c2)) (Name (Data resp)) (Path (Data resp))]\<rparr>
         else c2)"
  by (cases "saveRequestBody c")
     (simp add: handleFSGetRequest_gin_def responseBytes_def NextCaptured_eq Let_def
        responseBodyWriter_Status_def)

section \<open>The classifier\<close>

lemma classify_cases:
  "MediaLoggerMiddleware T J I rest c =
     (case classify T (URL_Path (Request c)) of
        Ignored \<Rightarrow> Next I rest c
      | DirectMedia \<Rightarrow>
          (let c1 = Next I rest c
           in logMediaAccess (now c1) (ClientIP c1) (URL_Path (Request c)) (getUserName c1) c1)
      | ListQuery \<Rightarrow> handleFSListRequest T J I rest c
      | GetQuery \<Rightarrow> handleFSGetRequest T J I rest c
      | Other \<Rightarrow> Next I rest c)"
  by (simp add: MediaLoggerMiddleware_def classify_def Let_def)

lemma classify_cases_gin:
  "MediaLoggerMiddleware_gin T J I rest c =
     (case classify T (URL_Path (Request c)) of
        Ignored \<Rightarrow> Next I rest c
      | DirectMedia \<Rightarrow>
          (let c1 = Next I rest c
           in c1\<lparr>logrus := logrus c1 @
                [DirectLine (Status I (Writer c1)) (ClientIP c1) (Method (Request c1)) (URL_Path (Request c))]\<rparr>)
      | ListQuery \<Rightarrow> handleFSListRequest_gin T J I rest c
      | GetQuery \<Rightarrow> handleFSGetRequest_gin T J I rest c
      | Other \<Rightarrow> Next I rest c)"
  by (simp add: MediaLoggerMiddleware_gin_def classify_def Let_def)

text \<open>
  Claim C3. A path that starts with one of the ignored prefixes is classified \<open>Ignored\<close>
  whatever its extension: the middleware (in both revisions) only runs the rest of the
  chain on the writer gin installed and gives nothing to logrus or to standard output.
  The test for the prefixes is the first one \<open>classify\<close> makes, before the extension is
  looked at.
\<close>

theorem ignored_prefix_wins:
  assumes "p \<in> set ignoredPaths" and "HasPrefix path p"
    and "URL_Path (Request c) = path" and "URL_Path (Request g) = path"
  shows "classify T path = Ignored
     \<and> MediaLoggerMiddleware T J I rest c = Next I rest c
     \<and> logrus (MediaLoggerMiddleware T J I rest c) = logrus c
     \<and> stdout (MediaLoggerMiddleware T J I rest c) = stdout c
     \<and> MediaLoggerMiddleware_gin T J I rest g = Next I rest g
     \<and> logrus (MediaLoggerMiddleware_gin T J I rest g) = logrus g"
proof -
  from assms(1,2) have "hasIgnoredPrefix path ignoredPaths"
    by (auto simp: hasIgnoredPrefix_iff)
  then have i: "classify T path = Ignored" by (simp add: classify_def)
  with assms(3,4) show ?thesis
    by (simp add: classify_cases classify_cases_gin Next_fields)
qed

theorem ignored_prefix_wins_witness:
  "isMediaFilePath sampleCaseRanges ''/assets/clip.mp4''
     \<and> classify sampleCaseRanges ''/assets/clip.mp4'' = Ignored
     \<and> logrus (MediaLoggerMiddleware sampleCaseRanges sampleJSON bufferWriter (respond ''ok'')
          (freshContext (requestFor ''GET'' ''/assets/clip.mp4''))) = []
     \<and> stdout (MediaLoggerMiddleware sampleCaseRanges sampleJSON bufferWriter (respond ''ok'')
          (freshContext (requestFor ''GET'' ''/assets/clip.mp4''))) = []
     \<and> logrus (MediaLoggerMiddleware_gin sampleCaseRanges sampleJSON bufferWriter (respond ''ok'')
          (freshContext (requestFor ''GET'' ''/assets/clip.mp4''))) = []"
proof -
  have m: "isMediaFilePath sampleCaseRanges ''/assets/clip.mp4''" by code_simp
  have p: "''/assets/'' \<in> set ignoredPaths" by (simp add: ignoredPaths_def)
  have h: "HasPrefix ''/assets/clip.mp4'' ''/assets/''" by (simp add: HasPrefix_def)
  have r: "URL_Path (Request (freshContext (requestFor ''GET'' ''/assets/clip.mp4'') :: (bytes \<times> int, 'x) Context))
            = ''/assets/clip.mp4''" for dummy :: 'x
    by (simp add: freshContext_def requestFor_def)
  from ignored_prefix_wins[OF p h r r, of sampleCaseRanges sampleJSON bufferWriter "respond ''ok''"] m
  show ?thesis by (simp add: Next_fields freshContext_def)
qed

text \<open>
  Claim C2, as amended. A path whose trailing extension (the substring after its final
  \<open>.\<close>, case-folded as \<^verbatim>\<open>strings.ToLower\<close> folds it, whatever the case table of the
  library) is in the registry, and that starts with none of the ignored prefixes, is
  classified \<open>DirectMedia\<close> whatever the letter case of the extension: the middleware
  runs the rest of the chain and then logs the path, once.
\<close>

theorem media_extension_classifies_direct:
  assumes "IsMedia_spec T path" and "\<not> hasIgnoredPrefix path ignoredPaths"
    and "URL_Path (Request c) = path" and "URL_Path (Request g) = path"
  shows "classify T path = DirectMedia
     \<and> MediaLoggerMiddleware T J I rest c =
         (let c1 = Next I rest c
          in logMediaAccess (now c1) (ClientIP c1) path (getUserName c1) c1)
     \<and> MediaLoggerMiddleware_gin T J I rest g =
         (let c1 = Next I rest g
          in c1\<lparr>logrus := logrus c1 @
               [DirectLine (Status I (Writer c1)) (ClientIP c1) (Method (Request c1)) path]\<rparr>)"
proof -
  from assms(1) have "isMediaFilePath T path" by (rule IsMedia_spec_isMediaFilePath)
  with assms(2) have "classify T path = DirectMedia" by (simp add: classify_def)
  with assms(3,4) show ?thesis
    by (simp add: classify_cases classify_cases_gin)
qed

theorem media_extension_classifies_direct_witness:
  "IsMedia_spec sampleCaseRanges ''/d/Movies/Clip.MP4''
     \<and> classify sampleCaseRanges ''/d/Movies/Clip.MP4'' = DirectMedia
     \<and> logrus (MediaLoggerMiddleware sampleCaseRanges sampleJSON bufferWriter (respond ''ok'')
          (freshContext (requestFor ''GET'' ''/d/Movies/Clip.MP4'')))
         = [formatMediaLog ''t0'' ''10.0.0.7'' ''/d/Movies/Clip.MP4'' unknown_user]
     \<and> logrus (MediaLoggerMiddleware_gin sampleCaseRanges sampleJSON bufferWriter (respond ''ok'')
          (freshContext (requestFor ''GET'' ''/d/Movies/Clip.MP4'')))
         = [DirectLine 200 ''10.0.0.7'' ''GET'' ''/d/Movies/Clip.MP4'']
     \<and> ToLower sampleCaseRanges (''.M'' @ kelvin @ ''V'') = ''.mkv''
     \<and> classify sampleCaseRanges kelvinPath = DirectMedia"
proof -
  have m: "IsMedia_spec sampleCaseRanges ''/d/Movies/Clip.MP4''" by code_simp
  have i: "\<not> hasIgnoredPrefix ''/d/Movies/Clip.MP4'' ignoredPaths" by code_simp
  have r: "URL_Path (Request (freshContext (requestFor ''GET'' ''/d/Movies/Clip.MP4'') :: (bytes \<times> int, 'x) Context))
            = ''/d/Movies/Clip.MP4''" for dummy :: 'x
    by (simp add: freshContext_def requestFor_def)
  have u: "getUserName (Next bufferWriter (respond ''ok'')
             (freshContext (requestFor ''GET'' ''/d/Movies/Clip.MP4'') :: (bytes \<times> int, string) Context)) = unknown_user"
    by (simp add: getUserName_def Next_def respond_def bufferWriter_def freshContext_def requestFor_def
          HasPrefix_def)
  have s: "Status bufferWriter (Writer (Next bufferWriter (respond ''ok'')
             (freshContext (requestFor ''GET'' ''/d/Movies/Clip.MP4'') :: (bytes \<times> int, gin_line) Context))) = 200"
    by (simp add: Next_def respond_def bufferWriter_def freshContext_def)
  have k: "ToLower sampleCaseRanges (''.M'' @ kelvin @ ''V'') = ''.mkv''" by code_simp
  have mk: "IsMedia_spec sampleCaseRanges kelvinPath" by code_simp
  have ik: "\<not> hasIgnoredPrefix kelvinPath ignoredPaths" by code_simp
  have rk: "URL_Path (Request (freshContext (requestFor ''GET'' kelvinPath)
              :: (bytes \<times> int, 'x) Context)) = kelvinPath" for dummy :: 'x
    by (simp add: freshContext_def requestFor_def)
  from media_extension_classifies_direct[OF m i r r, of sampleJSON bufferWriter "respond ''ok''"]
    media_extension_classifies_direct[OF mk ik rk rk, of sampleJSON bufferWriter "respond ''ok''"] m u s k
  show ?thesis
    by (simp add: Let_def logMediaAccess_def Next_fields) (simp add: freshContext_def requestFor_def)
qed

text \<open>
  The claim as first stated fails under an ignored prefix: the trailing extension of this
  path is in the registry, and the path is classified \<open>Ignored\<close>.
\<close>

theorem media_extension_under_ignored_prefix:
  "trailingExtension ''/images/Photo.JPG'' = Some ''JPG''
     \<and> IsMedia_spec sampleCaseRanges ''/images/Photo.JPG''
     \<and> classify sampleCaseRanges ''/images/Photo.JPG'' = Ignored
     \<and> classify sampleCaseRanges ''/images/Photo.JPG'' \<noteq> DirectMedia"
  by code_simp

section \<open>The response inspector and the access log\<close>

text \<open>
  Claim C1. When the captured response bytes decode, without error, to a list envelope
  \<open>resp\<close>: with \<open>code = 200\<close> the media files collected are the entries of \<open>content\<close>
  whose name has a registered extension (the substring after its final \<open>.\<close>, folded as
  \<^verbatim>\<open>strings.ToLower\<close> folds it, whatever the case table of the library), all of them and
  in the order of the envelope (as \<open>path/name\<close> in the revision that logs the user, as
  \<open>name\<close> in the [GIN] revision); with any other code nothing is collected, whatever
  \<open>content\<close> holds.
\<close>

theorem list_hits_are_media_entries:
  assumes "data \<noteq> []"
    and "Unmarshal_fsListResponse J data fsListResponse_zero = (resp, None)"
  shows "snd (listMediaFiles T (decodeListResponse J data)) =
           (if Code resp = 200
            then map (\<lambda>item. Path item @ ''/'' @ Name item) (mediaEntries T (Content resp))
            else [])
     \<and> snd (listMediaNames T (decodeListResponse J data)) =
           (if Code resp = 200 then map Name (mediaEntries T (Content resp)) else [])"
proof -
  from assms have "decodeListResponse J data = resp"
    by (simp add: decodeListResponse_def)
  then show ?thesis
    by (simp add: listMediaFiles_eq listMediaNames_eq)
qed

lemma sample_list_decodes:
  "Unmarshal_fsListResponse sampleJSON list_payload fsListResponse_zero =
     (\<lparr>Code = 200,
       Content = [\<lparr>Name = ''a.mp4'', Path = ''/x'', Type = 0\<rparr>,
                  \<lparr>Name = ''a.txt'', Path = ''/x'', Type = 0\<rparr>,
                  \<lparr>Name = ''b.mkv'', Path = ''/x'', Type = 0\<rparr>]\<rparr>, None)"
  by (simp add: sampleJSON_def)

lemma sample_list_entries:
  "mediaEntries sampleCaseRanges [\<lparr>Name = ''a.mp4'', Path = ''/x'', Type = 0\<rparr>,
                 \<lparr>Name = ''a.txt'', Path = ''/x'', Type = 0\<rparr>,
                 \<lparr>Name = ''b.mkv'', Path = ''/x'', Type = 0\<rparr>]
     = [\<lparr>Name = ''a.mp4'', Path = ''/x'', Type = 0\<rparr>, \<lparr>Name = ''b.mkv'', Path = ''/x'', Type = 0\<rparr>]"
  by code_simp

lemma list_payload_nonempty: "list_payload \<noteq> []"
  by (simp add: list_payload_def)

lemma payloads_distinct:
  "folded_payload \<noteq> list_payload" "mistyped_payload \<noteq> list_payload"
  "mistyped_payload \<noteq> folded_payload" "get_payload \<noteq> kelvin_get_payload"
  "truncated_payload \<noteq> list_payload" "truncated_payload \<noteq> folded_payload"
  "truncated_payload \<noteq> mistyped_payload" "truncated_payload \<noteq> get_payload"
  "truncated_payload \<noteq> kelvin_get_payload"
  "kelvin_get_payload \<noteq> get_payload"
  "mistyped_payload \<noteq> get_payload" "mistyped_payload \<noteq> kelvin_get_payload"
  by (simp_all add: list_payload_def folded_payload_def mistyped_payload_def get_payload_def
        kelvin_get_payload_def truncated_payload_def quoted_def quote_def kelvinName_def kelvin_def)

lemma folded_list_decodes:
  "Unmarshal_fsListResponse sampleJSON folded_payload fsListResponse_zero =
     (\<lparr>Code = 200,
       Content = [\<lparr>Name = ''A.MP4'', Path = ''/x'', Type = 0\<rparr>,
                  \<lparr>Name = ''Notes.TXT'', Path = ''/x'', Type = 0\<rparr>,
                  \<lparr>Name = kelvinName, Path = ''/y'', Type = 0\<rparr>]\<rparr>, None)"
  by (simp add: sampleJSON_def payloads_distinct)

lemma folded_list_entries:
  "mediaEntries sampleCaseRanges
       [\<lparr>Name = ''A.MP4'', Path = ''/x'', Type = 0\<rparr>,
        \<lparr>Name = ''Notes.TXT'', Path = ''/x'', Type = 0\<rparr>,
        \<lparr>Name = kelvinName, Path = ''/y'', Type = 0\<rparr>]
     = [\<lparr>Name = ''A.MP4'', Path = ''/x'', Type = 0\<rparr>,
        \<lparr>Name = kelvinName, Path = ''/y'', Type = 0\<rparr>]"
  by code_simp

lemma folded_payload_nonempty: "folded_payload \<noteq> []"
  by (simp add: folded_payload_def)

theorem list_hits_are_media_entries_witness:
  "snd (listMediaFiles sampleCaseRanges (decodeListResponse sampleJSON folded_payload))
       = [''/x/A.MP4'', ''/y/'' @ kelvinName]
     \<and> snd (listMediaNames sampleCaseRanges (decodeListResponse sampleJSON folded_payload))
       = [''A.MP4'', kelvinName]"
  using list_hits_are_media_entries[OF folded_payload_nonempty folded_list_decodes, of sampleCaseRanges]
  by (simp add: folded_list_entries)

lemma responseBytes_respond: "responseBytes I (respond b) c = b"
  by (simp add: responseBytes_eq respond_def split: prod.splits)

lemma getUserName_anonymous:
  "user c = None \<Longrightarrow> Authorization (Request c) = [] \<Longrightarrow>
     getUserName (Next I (respond b) c) = unknown_user"
  by (simp add: getUserName_def Next_fields respond_def HasPrefix_def split: prod.splits)

lemma Status_after_respond:
  "Status bufferWriter (Writer (Next bufferWriter (respond b) c)) = snd (Writer c)"
  by (simp add: Next_fields respond_def bufferWriter_def split: prod.splits)

lemma handler_context_fields:
  "logrus (Next I rest (snd (saveRequestBody c))) = logrus c"
  "stdout (Next I rest (snd (saveRequestBody c))) = stdout c"
  "now (Next I rest (snd (saveRequestBody c))) = now c"
  "ClientIP (Next I rest (snd (saveRequestBody c))) = ClientIP c"
  "URL_Path (Request (Next I rest (snd (saveRequestBody c)))) = URL_Path (Request c)"
  "Method (Request (Next I rest (snd (saveRequestBody c)))) = Method (Request c)"
  by (simp_all add: Next_fields saveRequestBody_fields)

text \<open>
  Claim C8, as amended. A request to the listing endpoint gives logrus, in the revision
  that logs the user, one line for each media file collected, in order, each echoed once
  on standard output; in the [GIN] revision it gives logrus one line that carries the
  whole slice of media files when the slice is not empty. A request to the retrieval
  endpoint gives one line when the response names a media file. When nothing is
  collected, no revision logs anything.
\<close>

theorem records_for_hits:
  "logrus (handleFSListRequest T J I rest c) =
       logrus c @ map (\<lambda>m. formatMediaLog (now c) (ClientIP c) m
                          (getUserName (Next I rest (snd (saveRequestBody c)))))
                    (snd (listMediaFiles T (decodeListResponse J (responseBytes I rest c))))
   \<and> stdout (handleFSListRequest T J I rest c) =
       stdout c @ map (\<lambda>m. formatMediaLog (now c) (ClientIP c) m
                          (getUserName (Next I rest (snd (saveRequestBody c)))) @ [CHR 0x0A])
                    (snd (listMediaFiles T (decodeListResponse J (responseBytes I rest c))))
   \<and> length (logrus (handleFSGetRequest T J I rest c)) =
       length (logrus c) +
         (if GetCode (decodeGetResponse J (responseBytes I rest c)) = 200
             \<and> isMediaFileName T (Name (Data (decodeGetResponse J (responseBytes I rest c))))
          then 1 else 0)
   \<and> logrus (handleFSListRequest_gin T J I rest g) =
       logrus g @
         (if snd (listMediaNames T (decodeListResponse J (responseBytes I rest g))) = [] then []
          else [ListLine (Status I (Writer (Next I rest (snd (saveRequestBody g))))) (ClientIP g)
                  (Method (Request g)) (URL_Path (Request g))
                  (ReqPath (decodeRequest J (fst (saveRequestBody g))))
                  (snd (listMediaNames T (decodeListResponse J (responseBytes I rest g))))])
   \<and> length (logrus (handleFSGetRequest_gin T J I rest g)) =
       length (logrus g) +
         (if GetCode (decodeGetResponse J (responseBytes I rest g)) = 200
             \<and> isMediaFileName T (Name (Data (decodeGetResponse J (responseBytes I rest g))))
          then 1 else 0)"
  by (simp add: handleFSListRequest_eq handleFSGetRequest_eq handleFSListRequest_gin_eq
        handleFSGetRequest_gin_eq logMediaFiles_eq logMediaAccess_def Let_def handler_context_fields)

lemma listRequest_fields:
  "logrus listRequest = []" "stdout listRequest = []" "now listRequest = ''t0''"
  "ClientIP listRequest = ''10.0.0.7''" "user listRequest = None" "Writer listRequest = ([], 200)"
  "Authorization (Request listRequest) = []" "Method (Request listRequest) = ''POST''"
  "URL_Path (Request listRequest) = ''/api/fs/list''"
  "saveRequestBody listRequest = ([], listRequest)"
  by (simp_all add: listRequest_def freshContext_def requestFor_def saveRequestBody_def NewBuffer_def)

lemma getRequest_fields:
  "logrus getRequest = []" "stdout getRequest = []" "now getRequest = ''t0''"
  "ClientIP getRequest = ''10.0.0.7''" "user getRequest = None" "Writer getRequest = ([], 200)"
  "Authorization (Request getRequest) = []" "Method (Request getRequest) = ''POST''"
  "URL_Path (Request getRequest) = ''/api/fs/get''"
  "saveRequestBody getRequest = ([], getRequest)"
  by (simp_all add: getRequest_def freshContext_def requestFor_def saveRequestBody_def NewBuffer_def)

lemma sample_list_hits:
  "listMediaFiles sampleCaseRanges (decodeListResponse sampleJSON list_payload) = (True, [''/x/a.mp4'', ''/x/b.mkv''])"
  "listMediaNames sampleCaseRanges (decodeListResponse sampleJSON list_payload) = (True, [''a.mp4'', ''b.mkv''])"
  by (simp_all add: listMediaFiles_eq listMediaNames_eq decodeListResponse_def
        list_payload_nonempty sample_list_decodes sample_list_entries)

theorem records_for_hits_witness:
  "logrus (handleFSListRequest sampleCaseRanges sampleJSON bufferWriter (respond list_payload) listRequest) =
       [formatMediaLog ''t0'' ''10.0.0.7'' ''/x/a.mp4'' unknown_user,
        formatMediaLog ''t0'' ''10.0.0.7'' ''/x/b.mkv'' unknown_user]
   \<and> logrus (handleFSListRequest_gin sampleCaseRanges sampleJSON bufferWriter (respond list_payload) listRequest) =
       [ListLine 200 ''10.0.0.7'' ''POST'' ''/api/fs/list'' [] [''a.mp4'', ''b.mkv'']]"
  using records_for_hits[of sampleCaseRanges sampleJSON bufferWriter "respond list_payload" listRequest listRequest]
  by (simp add: responseBytes_respond sample_list_hits listRequest_fields getUserName_anonymous
        Status_after_respond decodeRequest_def fsRequest_zero_def)

text \<open>
  The claim as first stated fails in the [GIN] revision: a listing with two media files
  gives two hits and one log line.
\<close>

theorem two_hits_one_line:
  "length (snd (listMediaNames sampleCaseRanges (decodeListResponse sampleJSON
             (responseBytes bufferWriter (respond list_payload) (listRequest :: (bytes \<times> int, gin_line) Context))))) = 2
   \<and> length (logrus (handleFSListRequest_gin sampleCaseRanges sampleJSON bufferWriter (respond list_payload) listRequest)) = 1"
  by (simp add: handleFSListRequest_gin_eq responseBytes_respond sample_list_hits listRequest_fields
        Let_def Next_fields)









section \<open>Responses that do not decode, and writers that fail\<close>

text \<open>
  Where \<^verbatim>\<open>json.Unmarshal\<close> stores nothing for the captured response bytes (the response
  struct keeps its zero value, which is what the library does with bytes that are not
  valid JSON, truncated JSON included), both handlers, in both revisions, log nothing
  and return the context exactly as the rest of the chain left it: the decoding error
  reaches neither the caller nor the response.
\<close>

lemma undecoded_response_logs_nothing:
  assumes "responseBytes I rest c = data" and "responseBytes I rest g = data"
    and "fst (Unmarshal_fsListResponse J data fsListResponse_zero) = fsListResponse_zero"
    and "fst (Unmarshal_fsGetResponse J data fsGetResponse_zero) = fsGetResponse_zero"
  shows "handleFSListRequest T J I rest c = Next I rest (snd (saveRequestBody c))
     \<and> handleFSGetRequest T J I rest c = Next I rest (snd (saveRequestBody c))
     \<and> handleFSListRequest_gin T J I rest g = Next I rest (snd (saveRequestBody g))
     \<and> handleFSGetRequest_gin T J I rest g = Next I rest (snd (saveRequestBody g))
     \<and> logrus (handleFSListRequest T J I rest c) = logrus c
     \<and> stdout (handleFSListRequest T J I rest c) = stdout c
     \<and> logrus (handleFSGetRequest T J I rest c) = logrus c
     \<and> stdout (handleFSGetRequest T J I rest c) = stdout c
     \<and> logrus (handleFSListRequest_gin T J I rest g) = logrus g
     \<and> logrus (handleFSGetRequest_gin T J I rest g) = logrus g"
proof -
  from assms(3) have l: "decodeListResponse J data = fsListResponse_zero"
    by (simp add: decodeListResponse_def)
  from assms(4) have g: "decodeGetResponse J data = fsGetResponse_zero"
    by (simp add: decodeGetResponse_def)
  have z: "listMediaFiles T fsListResponse_zero = (False, [])" "listMediaNames T fsListResponse_zero = (False, [])"
    "GetCode fsGetResponse_zero \<noteq> 200"
    by (simp_all add: listMediaFiles_def listMediaNames_def fsListResponse_zero_def fsGetResponse_zero_def)
  have c: "handleFSListRequest T J I rest c = Next I rest (snd (saveRequestBody c))"
    "handleFSGetRequest T J I rest c = Next I rest (snd (saveRequestBody c))"
    using assms(1) l g z by (simp_all add: handleFSListRequest_eq handleFSGetRequest_eq Let_def)
  have g': "handleFSListRequest_gin T J I rest g = Next I rest (snd (saveRequestBody g))"
    "handleFSGetRequest_gin T J I rest g = Next I rest (snd (saveRequestBody g))"
    using assms(2) l g z by (simp_all add: handleFSListRequest_gin_eq handleFSGetRequest_gin_eq Let_def)
  show ?thesis
    by (simp add: c g' handler_context_fields)
qed

lemma truncated_response_logs_nothing:
  "snd (Unmarshal_fsListResponse sampleJSON truncated_payload fsListResponse_zero) \<noteq> None
   \<and> logrus (handleFSListRequest sampleCaseRanges sampleJSON bufferWriter (respond truncated_payload) listRequest) = []
   \<and> stdout (handleFSListRequest sampleCaseRanges sampleJSON bufferWriter (respond truncated_payload) listRequest) = []
   \<and> logrus (handleFSGetRequest sampleCaseRanges sampleJSON bufferWriter (respond truncated_payload) getRequest) = []
   \<and> Writer (handleFSListRequest sampleCaseRanges sampleJSON bufferWriter (respond truncated_payload) listRequest)
       = (truncated_payload, 200)"
proof -
  have rc: "responseBytes bufferWriter (respond truncated_payload) (listRequest :: (bytes \<times> int, string) Context)
              = truncated_payload"
    by (rule responseBytes_respond)
  have rg: "responseBytes bufferWriter (respond truncated_payload) (listRequest :: (bytes \<times> int, gin_line) Context)
              = truncated_payload"
    by (rule responseBytes_respond)
  have rc': "responseBytes bufferWriter (respond truncated_payload) (getRequest :: (bytes \<times> int, string) Context)
              = truncated_payload"
    by (rule responseBytes_respond)
  note ne = payloads_distinct
  have l: "fst (Unmarshal_fsListResponse sampleJSON truncated_payload fsListResponse_zero) = fsListResponse_zero"
    and e: "snd (Unmarshal_fsListResponse sampleJSON truncated_payload fsListResponse_zero) \<noteq> None"
    and g: "fst (Unmarshal_fsGetResponse sampleJSON truncated_payload fsGetResponse_zero) = fsGetResponse_zero"
    using ne by (simp_all add: sampleJSON_def)
  have w: "Writer (Next bufferWriter (respond truncated_payload) (listRequest :: (bytes \<times> int, string) Context))
             = (truncated_payload, 200)"
    by (simp add: Next_fields respond_def bufferWriter_def listRequest_fields)
  from undecoded_response_logs_nothing[OF rc rg l g] undecoded_response_logs_nothing[OF rc' rg l g] e w
  show ?thesis
    by (simp add: listRequest_fields getRequest_fields Next_fields)
qed

lemma mistyped_list_decodes:
  "Unmarshal_fsListResponse sampleJSON mistyped_payload fsListResponse_zero =
     (\<lparr>Code = 200, Content = [\<lparr>Name = ''a.mp4'', Path = [], Type = 0\<rparr>]\<rparr>,
      Some (GoError ''json: cannot unmarshal number into Go struct field of type string''))"
  by (simp add: sampleJSON_def payloads_distinct)

lemma mistyped_get_decodes:
  "Unmarshal_fsGetResponse sampleJSON mistyped_payload fsGetResponse_zero =
     (fsGetResponse_zero\<lparr>GetCode := 200\<rparr>, None)"
  by (simp add: sampleJSON_def payloads_distinct)

lemma zero_get_name: "Name (Data fsGetResponse_zero) = []"
  by (simp add: fsGetResponse_zero_def fsObject_zero_def)

lemma mistyped_payload_nonempty: "mistyped_payload \<noteq> []"
  by (simp add: mistyped_payload_def)

lemma mistyped_entries:
  "mediaEntries sampleCaseRanges [\<lparr>Name = ''a.mp4'', Path = [], Type = 0\<rparr>]
     = [\<lparr>Name = ''a.mp4'', Path = [], Type = 0\<rparr>]"
  by code_simp

lemma list_endpoint_is_no_media_path: "\<not> isMediaFilePath sampleCaseRanges ''/api/fs/list''"
  by code_simp

lemma empty_name_is_no_media: "\<not> isMediaFileName sampleCaseRanges []"
  by code_simp

lemma listRequest_has_body:
  "Body (Request (listRequest :: (bytes \<times> int, string) Context)) \<noteq> None"
  by (simp add: listRequest_def freshContext_def requestFor_def)

lemma written_respond: "concat (writtenSlices bufferWriter (respond b r u) w) = b"
  by (simp add: respond_def bufferWriter_def split: prod.splits)

text \<open>
  Claim C5. The handlers do not treat a response that fails to decode as having no
  hits. For the list response \<^verbatim>\<open>{"code":200,"content":[{"name":"a.mp4","path":1}]}\<close>, whose
  \<^verbatim>\<open>path\<close> is a number, \<^verbatim>\<open>json.Unmarshal\<close> returns an error after it has stored the code
  and the entry; \<^verbatim>\<open>handleFSListRequest\<close> drops the error (\<^verbatim>\<open>_ = json.Unmarshal(...)\<close>) and
  logs the entry, in both revisions. \<^verbatim>\<open>MediaLoggerWithDebug\<close> of the same revision, which
  tests \<^verbatim>\<open>err == nil\<close>, logs nothing for the same request and response, as the claim
  says.
\<close>

theorem mistyped_response_is_logged:
  "snd (Unmarshal_fsListResponse sampleJSON mistyped_payload fsListResponse_zero) \<noteq> None
   \<and> logrus (handleFSListRequest sampleCaseRanges sampleJSON bufferWriter (respond mistyped_payload) listRequest) =
       [formatMediaLog ''t0'' ''10.0.0.7'' ''/a.mp4'' unknown_user]
   \<and> logrus (handleFSListRequest_gin sampleCaseRanges sampleJSON bufferWriter (respond mistyped_payload) listRequest) =
       [ListLine 200 ''10.0.0.7'' ''POST'' ''/api/fs/list'' [] [''a.mp4'']]
   \<and> logrus (MediaLoggerWithDebug sampleCaseRanges sampleJSON bufferWriter (respond mistyped_payload) listRequest) = []"
proof -
  have d: "decodeListResponse sampleJSON mistyped_payload =
      \<lparr>Code = 200, Content = [\<lparr>Name = ''a.mp4'', Path = [], Type = 0\<rparr>]\<rparr>"
    by (simp add: decodeListResponse_def mistyped_list_decodes mistyped_payload_nonempty)
  have e: "snd (Unmarshal_fsListResponse sampleJSON mistyped_payload fsListResponse_zero) \<noteq> None"
    by (simp add: mistyped_list_decodes)
  have l: "logrus (handleFSListRequest sampleCaseRanges sampleJSON bufferWriter (respond mistyped_payload) listRequest) =
       [formatMediaLog ''t0'' ''10.0.0.7'' ''/a.mp4'' unknown_user]"
    using d mistyped_entries
    by (simp add: handleFSListRequest_eq responseBytes_respond listMediaFiles_eq logMediaFiles_eq
          Let_def listRequest_fields Next_fields getUserName_anonymous)
  have g: "logrus (handleFSListRequest_gin sampleCaseRanges sampleJSON bufferWriter (respond mistyped_payload) listRequest) =
       [ListLine 200 ''10.0.0.7'' ''POST'' ''/api/fs/list'' [] [''a.mp4'']]"
    using d mistyped_entries
    by (simp add: handleFSListRequest_gin_eq responseBytes_respond listMediaNames_eq
          Let_def listRequest_fields Status_after_respond decodeRequest_def
          fsRequest_zero_def Next_fields(1-5))
  have w: "logrus (MediaLoggerWithDebug sampleCaseRanges sampleJSON bufferWriter (respond mistyped_payload) listRequest) = []"
    by (simp add: MediaLoggerWithDebug_def Let_def listRequest_fields listRequest_has_body
          list_endpoint_is_no_media_path NextCaptured_eq written_respond mistyped_list_decodes mistyped_get_decodes mistyped_payload_nonempty
          empty_name_is_no_media zero_get_name Next_fields)
  from e l g w show ?thesis by simp
qed

text \<open>
  Claim C9, as amended. What the embedded writer returns, its error included, is what
  \<open>Write\<close> and \<open>WriteString\<close> of the wrapper return, so a handler sees each result
  exactly as it would without the wrapper. The buffer holds every slice given to the
  wrapper, also a slice the embedded writer failed on. When \<^verbatim>\<open>c.Next()\<close> has returned,
  the two handlers decode that buffer and log what it names, whatever the writer
  reported: nothing records that a write failed.
\<close>

theorem writer_error_returned_buffer_still_inspected:
  "snd (responseBodyWriter_Write I w b) = snd (Write I (ResponseWriter w) b)
   \<and> snd (responseBodyWriter_WriteString I w s) = snd (WriteString I (ResponseWriter w) s)
   \<and> body (fst (responseBodyWriter_Write I w b)) = body w @ b
   \<and> body (fst (responseBodyWriter_WriteString I w s)) = body w @ s
   \<and> writeResults (responseBodyWriter_methods I) h \<lparr>ResponseWriter = u, body = []\<rparr> = writeResults I h u
   \<and> responseBytes I rest c =
       concat (writtenSlices I (rest (Request (snd (saveRequestBody c))) (user c)) (Writer c))
   \<and> handleFSListRequest T J I rest c =
       (let c2 = Next I rest (snd (saveRequestBody c))
        in logMediaFiles (ClientIP c2) (getUserName c2)
             (snd (listMediaFiles T (decodeListResponse J (responseBytes I rest c)))) c2)
   \<and> handleFSGetRequest T J I rest c =
       (let c2 = Next I rest (snd (saveRequestBody c));
            resp = decodeGetResponse J (responseBytes I rest c)
        in if GetCode resp = 200 \<and> isMediaFileName T (Name (Data resp))
           then logMediaAccess (now c2) (ClientIP c2) (Path (Data resp)) (getUserName c2) c2
           else c2)"
  using handleFSListRequest_eq[of T J I rest c] handleFSGetRequest_eq[of T J I rest c]
  by (simp add: responseBodyWriter_Write_eq responseBodyWriter_WriteString_eq writeResults_captured
        responseBytes_eq)

theorem writer_error_returned_buffer_still_inspected_witness:
  "snd (responseBodyWriter_Write brokenWriter \<lparr>ResponseWriter = ([], 200), body = ''ab''\<rparr> ''cd'')
       = (0, Some (GoError ''write: broken pipe''))
   \<and> body (fst (responseBodyWriter_Write brokenWriter \<lparr>ResponseWriter = ([], 200), body = ''ab''\<rparr> ''cd''))
       = ''abcd''
   \<and> responseBytes brokenWriter (respond list_payload) (listRequest :: (bytes \<times> int, string) Context)
       = list_payload"
  using writer_error_returned_buffer_still_inspected[of brokenWriter
          "\<lparr>ResponseWriter = ([], 200), body = ''ab''\<rparr>" "''cd''" "''cd''" "Return None" "([], 200)"
          "respond list_payload" "listRequest :: (bytes \<times> int, string) Context" sampleCaseRanges sampleJSON]
  by (simp add: brokenWriter_def respond_def listRequest_fields)

text \<open>
  The claim as first stated fails: the handler writes a whole listing in one call, the
  writer reports that the client has gone, and the two media files of the buffered
  listing are logged all the same.
\<close>

theorem failed_write_is_still_logged:
  "writeResults (responseBodyWriter_methods brokenWriter)
       (respond list_payload (Request listRequest) None) \<lparr>ResponseWriter = ([], 200), body = []\<rparr>
       = [(0, Some (GoError ''write: broken pipe''))]
   \<and> Writer (handleFSListRequest sampleCaseRanges sampleJSON brokenWriter (respond list_payload) listRequest) = ([], 200)
   \<and> logrus (handleFSListRequest sampleCaseRanges sampleJSON brokenWriter (respond list_payload) listRequest) =
       [formatMediaLog ''t0'' ''10.0.0.7'' ''/x/a.mp4'' unknown_user,
        formatMediaLog ''t0'' ''10.0.0.7'' ''/x/b.mkv'' unknown_user]"
proof -
  have r: "writeResults (responseBodyWriter_methods brokenWriter)
       (respond list_payload (Request listRequest) None) \<lparr>ResponseWriter = ([], 200), body = []\<rparr>
       = [(0, Some (GoError ''write: broken pipe''))]"
    by (simp add: respond_def methods_simps responseBodyWriter_Write_eq brokenWriter_def)
  have w: "Writer (Next brokenWriter (respond list_payload) (listRequest :: (bytes \<times> int, string) Context)) = ([], 200)"
    by (simp add: Next_fields respond_def brokenWriter_def listRequest_fields)
  from r w show ?thesis
    by (simp add: handleFSListRequest_eq responseBytes_respond sample_list_hits logMediaFiles_eq
          Let_def listRequest_fields Next_fields getUserName_anonymous)
qed

section \<open>The request body and the response stream are left as they were\<close>

text \<open>
  Claim C6. For a request with a body, both handlers read the body to its end and hand
  the rest of the chain a request that differs from the original only in its body, which
  is a fresh reader over exactly the bytes read: reading it to its end gives the same
  byte sequence. The rest of the chain is run on that request and on no other, so the
  outcome of a handler depends on the chain only through what the chain does with it.
\<close>

theorem request_body_roundtrip:
  assumes "Body (Request c) = Some rd"
  shows "fst (saveRequestBody c) = fst (ReadAll rd)
     \<and> Request (snd (saveRequestBody c)) = (Request c)\<lparr>Body := Some (NewBuffer (fst (ReadAll rd)))\<rparr>
     \<and> ReadAll (NewBuffer (fst (ReadAll rd))) = (fst (ReadAll rd), None)
     \<and> (rest ((Request c)\<lparr>Body := Some (NewBuffer (fst (ReadAll rd)))\<rparr>) (user c)
           = rest' ((Request c)\<lparr>Body := Some (NewBuffer (fst (ReadAll rd)))\<rparr>) (user c)
         \<longrightarrow> handleFSListRequest T J I rest c = handleFSListRequest T J I rest' c
           \<and> handleFSGetRequest T J I rest c = handleFSGetRequest T J I rest' c)"
proof -
  from assms have s: "saveRequestBody c =
      (fst (ReadAll rd), c\<lparr>Request := (Request c)\<lparr>Body := Some (NewBuffer (fst (ReadAll rd)))\<rparr>\<rparr>)"
    by (simp add: saveRequestBody_def Let_def)
  have n: "ReadAll (NewBuffer bs) = (bs, None)" for bs
    by (simp add: NewBuffer_def)
  show ?thesis
    by (simp add: s n handleFSListRequest_def handleFSGetRequest_def NextCaptured_def)
qed

theorem request_body_roundtrip_witness:
  "fst (saveRequestBody (interruptedUpload :: (bytes \<times> int, string) Context)) = ''{}''
   \<and> Body (Request (snd (saveRequestBody (interruptedUpload :: (bytes \<times> int, string) Context))))
       = Some (Reader ''{}'' None)
   \<and> handleFSListRequest sampleCaseRanges sampleJSON bufferWriter (respond ''ok'') interruptedUpload
       = handleFSListRequest sampleCaseRanges sampleJSON bufferWriter
           (\<lambda>r u. if Body r = Some (Reader ''{}'' None) then respond ''ok'' r u else respond ''lost'' r u)
           interruptedUpload"
proof -
  have b: "Body (Request (interruptedUpload :: (bytes \<times> int, string) Context))
           = Some (Reader ''{}'' (Some (GoError ''unexpected EOF'')))"
    by (simp add: interruptedUpload_def)
  from request_body_roundtrip[OF b, of "respond ''ok''"
         "\<lambda>r u. if Body r = Some (Reader ''{}'' None) then respond ''ok'' r u else respond ''lost'' r u"
         sampleCaseRanges sampleJSON bufferWriter]
  show ?thesis
    by (simp add: NewBuffer_def)
qed

text \<open>
  Claim C7. Each \<open>Write\<close> and \<open>WriteString\<close> on the wrapper appends the slice to the
  buffer and gives the same slice to the embedded writer, whose result it returns. So
  for every handler, whatever calls it makes and however it reacts to their results:
  run on the wrapper, the embedded writer ends in the state, and the handler with the
  result, that the handler run on the embedded writer alone reaches; the handler makes
  the same calls with the same slices and gets the same results; and the buffer ends as
  what it held before followed by all the slices written, in order.
\<close>

theorem wrapper_forwards_and_buffers:
  "responseBodyWriter_Write I w b =
       (\<lparr>ResponseWriter = fst (Write I (ResponseWriter w) b), body = body w @ b\<rparr>,
        snd (Write I (ResponseWriter w) b))
   \<and> responseBodyWriter_WriteString I w s =
       (\<lparr>ResponseWriter = fst (WriteString I (ResponseWriter w) s), body = body w @ s\<rparr>,
        snd (WriteString I (ResponseWriter w) s))
   \<and> runHandler (responseBodyWriter_methods I) h \<lparr>ResponseWriter = u, body = buf\<rparr> =
       (\<lparr>ResponseWriter = fst (runHandler I h u), body = buf @ concat (writtenSlices I h u)\<rparr>,
        snd (runHandler I h u))
   \<and> writtenSlices (responseBodyWriter_methods I) h \<lparr>ResponseWriter = u, body = buf\<rparr> = writtenSlices I h u
   \<and> writeResults (responseBodyWriter_methods I) h \<lparr>ResponseWriter = u, body = buf\<rparr> = writeResults I h u"
  by (simp add: responseBodyWriter_Write_eq responseBodyWriter_WriteString_eq runHandler_captured
        writtenSlices_captured writeResults_captured)

theorem wrapper_forwards_and_buffers_witness:
  "runHandler (responseBodyWriter_methods bufferWriter)
       (CallWrite ''ab'' (\<lambda>r. CallWriteString ''cd'' (\<lambda>r'. CallWrite ''e'' (\<lambda>r''. Return (fst r, fst r', fst r'')))))
       \<lparr>ResponseWriter = ([], 200), body = []\<rparr>
     = (\<lparr>ResponseWriter = (''abcde'', 200), body = ''abcde''\<rparr>, (2, 2, 1))"
  using wrapper_forwards_and_buffers[of bufferWriter "\<lparr>ResponseWriter = ([], 200), body = []\<rparr>" "[]" "[]"
          "CallWrite ''ab'' (\<lambda>r. CallWriteString ''cd'' (\<lambda>r'. CallWrite ''e'' (\<lambda>r''. Return (fst r, fst r', fst r''))))"
          "([], 200)" "[]"]
  by (simp add: bufferWriter_def)

section \<open>The filter over rendered log lines\<close>

text \<open>
  Claim C10. \<open>Write\<close> of the line filter, in both revisions, either hands the whole
  slice to the wrapped writer and returns what that writer returns, or leaves the
  wrapped writer untouched and returns \<open>len(p)\<close> with no error. A slice without the
  \<open>[GIN]\<close> marker always takes the first way.
\<close>

theorem line_filter_all_or_nothing:
  "(LoggerFilterWriter_Write W w p = W w p \<or> LoggerFilterWriter_Write W w p = (w, length p, None))
   \<and> (LoggerFilterWriter_Write_apiPaths T W w p = W w p
        \<or> LoggerFilterWriter_Write_apiPaths T W w p = (w, length p, None))
   \<and> (\<not> Contains p ''[GIN]'' \<longrightarrow>
         LoggerFilterWriter_Write W w p = W w p \<and> LoggerFilterWriter_Write_apiPaths T W w p = W w p)"
  by (simp add: LoggerFilterWriter_Write_def LoggerFilterWriter_Write_apiPaths_def Let_def)

theorem line_filter_all_or_nothing_witness:
  "LoggerFilterWriter_Write appendWriter ''> '' ''listening on :5244'' = (''> listening on :5244'', 18, None)
   \<and> LoggerFilterWriter_Write_apiPaths sampleCaseRanges appendWriter ''> '' ''listening on :5244'' = (''> listening on :5244'', 18, None)
   \<and> LoggerFilterWriter_Write appendWriter ''> '' ''[GIN] 200 | GET /assets/app.js'' = (''> '', 30, None)
   \<and> LoggerFilterWriter_Write_apiPaths sampleCaseRanges appendWriter ''> '' ''[GIN] 200 | GET /assets/app.js'' = (''> '', 30, None)"
proof -
  have n: "\<not> Contains ''listening on :5244'' ''[GIN]''" by code_simp
  have a: "LoggerFilterWriter_Write appendWriter ''> '' ''[GIN] 200 | GET /assets/app.js'' = (''> '', 30, None)"
    by code_simp
  have b: "LoggerFilterWriter_Write_apiPaths sampleCaseRanges appendWriter ''> '' ''[GIN] 200 | GET /assets/app.js'' = (''> '', 30, None)"
    by code_simp
  from line_filter_all_or_nothing[of appendWriter "''> ''" "''listening on :5244''"] n a b
  show ?thesis by (simp add: appendWriter_def)
qed

end
